theory Spec2Isabelle
  imports Complex_Main "HOL-Library.List_Lexorder" "HOL-Library.Char_ord" "HOL-Library.Log_Nat"
begin

section \<open>Numbers as the tables hold them\<close>

text \<open>
  The tables of \<^verbatim>\<open>picrust2/metagenome_pipeline.py\<close> are pandas data frames of
  floating-point numbers. A cell is modelled as an exact rational or one of the three
  special values of IEEE 754 that pandas produces silently: dividing by zero gives an
  infinity (or NaN for 0/0) instead of raising, and NaN is also pandas' marker of a
  missing cell. Sums, products and quotients of finite cells are exact here; the sign
  of zero, overflow and subnormal numbers are outside the model. Two places where one
  unit in the last place decides are not left to exact arithmetic: the rounding of the
  normalised table (\<open>fround\<close> below rounds as binary64 does) and the row totals that
  the rare-sequence classifier compares with a threshold (a parameter \<open>row_total\<close>).
\<close>

datatype num = Fin rat | PInf | NInf | NaN

fun is_fin :: "num \<Rightarrow> bool" where
  "is_fin (Fin a) = True"
| "is_fin x = False"

fun val :: "num \<Rightarrow> rat" where
  "val (Fin a) = a"
| "val x = 0"

fun fadd :: "num \<Rightarrow> num \<Rightarrow> num" where
  "fadd (Fin a) (Fin b) = Fin (a + b)"
| "fadd NaN y = NaN"
| "fadd x NaN = NaN"
| "fadd PInf NInf = NaN"
| "fadd NInf PInf = NaN"
| "fadd PInf y = PInf"
| "fadd NInf y = NInf"
| "fadd (Fin a) y = y"

fun fmul :: "num \<Rightarrow> num \<Rightarrow> num" where
  "fmul (Fin a) (Fin b) = Fin (a * b)"
| "fmul NaN y = NaN"
| "fmul x NaN = NaN"
| "fmul (Fin a) PInf = (if a = 0 then NaN else if 0 < a then PInf else NInf)"
| "fmul (Fin a) NInf = (if a = 0 then NaN else if 0 < a then NInf else PInf)"
| "fmul PInf (Fin b) = (if b = 0 then NaN else if 0 < b then PInf else NInf)"
| "fmul NInf (Fin b) = (if b = 0 then NaN else if 0 < b then NInf else PInf)"
| "fmul PInf PInf = PInf"
| "fmul PInf NInf = NInf"
| "fmul NInf PInf = NInf"
| "fmul NInf NInf = PInf"

text \<open>True division of numpy: no exception, \<open>x / 0\<close> is an infinity and \<open>0 / 0\<close> is NaN.\<close>

fun fdiv :: "num \<Rightarrow> num \<Rightarrow> num" where
  "fdiv (Fin a) (Fin b) =
     (if b \<noteq> 0 then Fin (a / b)
      else if a = 0 then NaN else if 0 < a then PInf else NInf)"
| "fdiv NaN y = NaN"
| "fdiv x NaN = NaN"
| "fdiv (Fin a) y = Fin 0"
| "fdiv PInf (Fin b) = (if 0 \<le> b then PInf else NInf)"
| "fdiv NInf (Fin b) = (if 0 \<le> b then NInf else PInf)"
| "fdiv x y = NaN"

text \<open>Comparisons: every ordering comparison with NaN is false.\<close>

fun fle :: "num \<Rightarrow> num \<Rightarrow> bool" where
  "fle (Fin a) (Fin b) = (a \<le> b)"
| "fle NaN y = False"
| "fle x NaN = False"
| "fle NInf y = True"
| "fle x PInf = True"
| "fle x y = False"

fun flt :: "num \<Rightarrow> num \<Rightarrow> bool" where
  "flt (Fin a) (Fin b) = (a < b)"
| "flt NaN y = False"
| "flt x NaN = False"
| "flt PInf y = False"
| "flt x NInf = False"
| "flt x y = True"

text \<open>
  \<^verbatim>\<open>.sum(axis=...)\<close> of pandas skips NaN cells (\<^verbatim>\<open>skipna=True\<close>) and adds the rest; the
  sum of no cells is 0.
\<close>

definition nansum :: "num list \<Rightarrow> num" where
  "nansum xs = foldl fadd (Fin 0) (filter (\<lambda>x. x \<noteq> NaN) xs)"

text \<open>Rounding to the nearest integer, ties to the even one (\<^verbatim>\<open>rint\<close>).\<close>

definition rint :: "rat \<Rightarrow> int" where
  "rint x =
     (let f = \<lfloor>x\<rfloor>; d = x - of_int f
      in if d < 1 / 2 then f else if 1 / 2 < d then f + 1
         else if even f then f else f + 1)"

text \<open>
  The nearest binary64 number of a rational, ties to the even mantissa: the value that
  an IEEE 754 operation returns for the exact result \<open>x\<close>. A binary64 number has a
  mantissa of 53 bits, so \<open>x\<close> is scaled by a power of two into \<open>[2 ^ 52, 2 ^ 53)\<close>,
  rounded there to an integer and scaled back.
\<close>

definition pow2 :: "int \<Rightarrow> rat" where
  "pow2 k = (if 0 \<le> k then 2 ^ nat k else 1 / 2 ^ nat (- k))"

definition floor_log2 :: "rat \<Rightarrow> int" where
  "floor_log2 x =
     (let (p, q) = quotient_of x; k = bitlen p - bitlen q
      in if pow2 k \<le> x then k else k - 1)"

definition rn64 :: "rat \<Rightarrow> rat" where
  "rn64 x =
     (if x = 0 then 0
      else let e = floor_log2 \<bar>x\<bar> - 52 in of_int (rint (x / pow2 e)) * pow2 e)"

text \<open>
  \<^verbatim>\<open>.round(decimals=d)\<close> on the quotient of two cells: numpy multiplies the binary64
  quotient by \<open>10 ^ d\<close>, rounds the product to the nearest integer (\<^verbatim>\<open>rint\<close>) and
  divides by \<open>10 ^ d\<close>, each step in binary64. So 23 / 40 becomes the binary64
  number next to 0.57, not 0.58: the binary64 quotient lies below 0.575. Special
  values stay as they are.
\<close>

fun fround :: "nat \<Rightarrow> num \<Rightarrow> num" where
  "fround d (Fin a) = Fin (rn64 (of_int (rint (rn64 (rn64 a * 10 ^ d))) / 10 ^ d))"
| "fround d x = x"

section \<open>Data frames and series\<close>

text \<open>
  A data frame is its row labels and column labels, both in order, and a cell for every
  pair of labels; a series is a frame with one unnamed column. Labels are unique in
  every table of the pipeline (sequence, function and sample identifiers), so a cell is
  addressed by its labels, as pandas aligns them.
\<close>

record ('r, 'c) frame =
  index :: "'r list"
  columns :: "'c list"
  cell :: "'r \<Rightarrow> 'c \<Rightarrow> num"

record 'r series =
  s_index :: "'r list"
  s_value :: "'r \<Rightarrow> num"

text \<open>The failures of the source: \<^verbatim>\<open>sys.exit\<close> with its message, and the exceptions
  pandas raises.\<close>

datatype error = SystemExit string | KeyError | IndexError | ValueError | AttributeError

text \<open>Row labels of the output tables: a function identifier (unstratified), or the pair
  of a function and a sequence identifier (stratified, a pandas MultiIndex).\<close>

datatype rowkey = FuncId string | FuncSeq string string

definition as_dict :: "('r, 'c) frame \<Rightarrow> ('r \<times> ('c \<times> num) list) list" where
  "as_dict df = map (\<lambda>r. (r, map (\<lambda>c. (c, cell df r c)) (columns df))) (index df)"

definition from_rows :: "'c list \<Rightarrow> ('r \<times> num list) list \<Rightarrow> ('r, 'c) frame" where
  "from_rows cs rows =
     \<lparr>index = map fst rows, columns = cs,
      cell = (\<lambda>r c. case map_of rows r of
                       None \<Rightarrow> NaN
                     | Some vs \<Rightarrow> (case map_of (zip cs vs) c of None \<Rightarrow> NaN | Some v \<Rightarrow> v))\<rparr>"

text \<open>\<^verbatim>\<open>df[c]\<close>: one column as a series over the rows.\<close>

definition col :: "('r, 'c) frame \<Rightarrow> 'c \<Rightarrow> 'r series" where
  "col df c = \<lparr>s_index = index df, s_value = (\<lambda>r. cell df r c)\<rparr>"

text \<open>
  The row labels after pandas aligns two indexes for an arithmetic operation (an outer
  join): equal indexes are kept as they are, otherwise the union of the labels, sorted.
\<close>

definition align_union :: "string list \<Rightarrow> string list \<Rightarrow> string list" where
  "align_union a b =
     (if a = b \<or> b = [] then a else if a = [] then b else sort (remdups (a @ b)))"

text \<open>\<^verbatim>\<open>df.mul(s, axis=0)\<close>: each row times the entry of the series with the same label; a
  label that one side lacks gives a row of NaN.\<close>

definition mul_index :: "(string, 'c) frame \<Rightarrow> string series \<Rightarrow> (string, 'c) frame" where
  "mul_index df s =
     \<lparr>index = align_union (index df) (s_index s), columns = columns df,
      cell = (\<lambda>r c. if r \<in> set (index df) \<and> r \<in> set (s_index s)
                     then fmul (cell df r c) (s_value s r) else NaN)\<rparr>"

text \<open>\<^verbatim>\<open>df.sum(axis=0)\<close>: one sum per column.\<close>

definition col_sum :: "('r, 'c) frame \<Rightarrow> 'c \<Rightarrow> num" where
  "col_sum df c = nansum (map (\<lambda>r. cell df r c) (index df))"

text \<open>The cells of one row, in the order of the columns.\<close>

definition row_values :: "('r, 'c) frame \<Rightarrow> 'r \<Rightarrow> num list" where
  "row_values df r = map (\<lambda>c. cell df r c) (columns df)"

section \<open>The functions of \<^verbatim>\<open>picrust2/metagenome_pipeline.py\<close>\<close>

subsection \<open>\<^verbatim>\<open>norm_by_marker_copies\<close>\<close>

text \<open>
  Each row of the sequence counts is divided by the entry of the first column of the
  marker table with the same label, and the table is rounded.
  \<^verbatim>\<open>columns.values[0]\<close> raises IndexError on a marker table without columns, and \<^verbatim>\<open>.loc\<close>
  raises KeyError for a sequence the marker table lacks. There is no test of the divisor.
  Writing the table to \<^verbatim>\<open>norm_filename\<close> is outside the model.
\<close>

definition norm_by_marker_copies ::
  "(string, string) frame \<Rightarrow> (string, string) frame \<Rightarrow> nat \<Rightarrow> error + (string, string) frame"
where
  "norm_by_marker_copies input_seq_counts input_marker_num round_decimal =
     (case columns input_marker_num of
        [] \<Rightarrow> Inl IndexError
      | m # ms \<Rightarrow>
          if \<not> set (index input_seq_counts) \<subseteq> set (index input_marker_num) then Inl KeyError
          else Inr \<lparr>index = index input_seq_counts, columns = columns input_seq_counts,
                    cell = (\<lambda>r c. fround round_decimal
                                     (fdiv (cell input_seq_counts r c)
                                           (cell input_marker_num r m)))\<rparr>)"

subsection \<open>\<^verbatim>\<open>calc_weighted_nsti\<close>\<close>

text \<open>
  \<^verbatim>\<open>nsti_input.metadata_NSTI\<close> raises AttributeError when the column is absent. The
  result has one row per sample and the single column \<^verbatim>\<open>weighted_NSTI\<close>. There is no
  test of the denominator.
\<close>

definition calc_weighted_nsti ::
  "(string, string) frame \<Rightarrow> (string, string) frame \<Rightarrow> error + (string, string) frame"
where
  "calc_weighted_nsti seq_counts nsti_input =
     (if ''metadata_NSTI'' \<notin> set (columns nsti_input) then Inl AttributeError
      else
        let nsti_mult = mul_index seq_counts (col nsti_input ''metadata_NSTI'')
        in Inr \<lparr>index = columns seq_counts, columns = [''weighted_NSTI''],
                 cell = (\<lambda>s c. fdiv (col_sum nsti_mult s) (col_sum seq_counts s))\<rparr>)"

subsection \<open>\<^verbatim>\<open>id_rare_seqs\<close>\<close>

definition rare_message :: string where
  "rare_message =
     ''Stopping: the sequence called '' @ [CHR 0x22] @ ''RARE'' @ [CHR 0x22] @
     '' in the sequence abundance table should be re-named.''"

text \<open>
  The two sets of the source, as the rows of the table that pass each mask.
  \<^verbatim>\<open>in_counts.sum(axis=1)\<close> is compared with \<open>min_reads\<close>, so the last bit of the total
  decides and exact addition would not do (the binary64 numbers next to 1.4, 1.2 and
  1.4 add up to less than 4). In which order numpy adds the cells of a row, and that
  an integer table wraps around, is not in the source: the total pandas computes from
  the cells of a row is the parameter \<open>row_total\<close> of the classifier and of all that calls
  it. The examples use \<open>nansum\<close>, on small whole numbers and halves, where every
  order of addition is exact.
\<close>

definition low_freq_seq ::
  "(num list \<Rightarrow> num) \<Rightarrow> (string, string) frame \<Rightarrow> int \<Rightarrow> string list"
where
  "low_freq_seq row_total in_counts min_reads =
     filter (\<lambda>q. flt (row_total (row_values in_counts q)) (Fin (of_int min_reads)))
       (index in_counts)"

definition nonzero_count :: "(string, string) frame \<Rightarrow> string \<Rightarrow> int" where
  "nonzero_count in_counts q =
     int (length (filter (\<lambda>c. cell in_counts q c \<noteq> Fin 0) (columns in_counts)))"

definition few_samples_seq :: "(string, string) frame \<Rightarrow> int \<Rightarrow> string list" where
  "few_samples_seq in_counts min_samples =
     filter (\<lambda>q. nonzero_count in_counts q < min_samples) (index in_counts)"

text \<open>
  The check for a sequence called RARE comes first. The result is the list of a Python
  set, whose order Python leaves open; the model lists the members without duplicates,
  the low-frequency ones first.
\<close>

definition id_rare_seqs ::
  "(num list \<Rightarrow> num) \<Rightarrow> (string, string) frame \<Rightarrow> int \<Rightarrow> int \<Rightarrow> error + string list"
where
  "id_rare_seqs row_total in_counts min_reads min_samples =
     (if ''RARE'' \<in> set (index in_counts) then Inl (SystemExit rare_message)
      else Inr (remdups (low_freq_seq row_total in_counts min_reads @
                         few_samples_seq in_counts min_samples)))"

subsection \<open>\<^verbatim>\<open>func_by_seq_abun\<close>\<close>

text \<open>
  The rows of the rare sequences are summed into a row RARE, which replaces them
  (\<^verbatim>\<open>.loc\<close> and \<^verbatim>\<open>drop\<close> raise KeyError for a label that is not a row; assigning to
  \<^verbatim>\<open>.loc["RARE"]\<close> appends the row, or overwrites a row of that name).
\<close>

definition collapse_rare ::
  "(string, string) frame \<Rightarrow> string list \<Rightarrow> error + (string, string) frame"
where
  "collapse_rare func_abun_depth rare_seqs =
     (if rare_seqs \<noteq> [] then
        if \<not> set rare_seqs \<subseteq> set (index func_abun_depth) then Inl KeyError
        else
          let rare_subset_sum = (\<lambda>f. nansum (map (\<lambda>q. cell func_abun_depth q f) rare_seqs));
              kept = filter (\<lambda>q. q \<notin> set rare_seqs) (index func_abun_depth)
          in Inr \<lparr>index = (if ''RARE'' \<in> set kept then kept else kept @ [''RARE'']),
                   columns = columns func_abun_depth,
                   cell = (\<lambda>q f. if q = ''RARE'' then rare_subset_sum f
                                  else cell func_abun_depth q f)\<rparr>
      else Inr func_abun_depth)"

text \<open>
  With \<^verbatim>\<open>calc_strat\<close> the table is melted to long form: one entry per function column and
  row, keyed by the pair (the column \<^verbatim>\<open>sequence\<close> that the source adds holds the row
  labels and overwrites a function column of that name). Otherwise each function
  column is summed.
\<close>

definition func_by_seq_abun ::
  "string series \<Rightarrow> (string, string) frame \<Rightarrow> string list \<Rightarrow> bool \<Rightarrow> error + rowkey series"
where
  "func_by_seq_abun sample_seq_counts func_abun rare_seqs calc_strat =
     (case collapse_rare (mul_index func_abun sample_seq_counts) rare_seqs of
        Inl e \<Rightarrow> Inl e
      | Inr func_abun_depth \<Rightarrow>
          if calc_strat then
            Inr \<lparr>s_index =
                   concat (map (\<lambda>f. map (\<lambda>q. FuncSeq f q) (index func_abun_depth))
                             (filter (\<lambda>f. f \<noteq> ''sequence'') (columns func_abun_depth))),
                 s_value = (\<lambda>k. case k of FuncSeq f q \<Rightarrow> cell func_abun_depth q f
                                          | FuncId f \<Rightarrow> NaN)\<rparr>
          else
            Inr \<lparr>s_index = map FuncId (columns func_abun_depth),
                 s_value = (\<lambda>k. case k of FuncId f \<Rightarrow> col_sum func_abun_depth f
                                          | FuncSeq f q \<Rightarrow> NaN)\<rparr>)"

subsection \<open>\<^verbatim>\<open>funcs_by_sample\<close>\<close>

text \<open>
  The loop of the sequential branch: \<^verbatim>\<open>sample_funcs += [...]\<close> for each sample in turn;
  an exception of one sample ends the loop.
\<close>

fun sample_loop ::
  "(string \<Rightarrow> error + rowkey series) \<Rightarrow> rowkey series list \<Rightarrow> string list
     \<Rightarrow> error + rowkey series list"
where
  "sample_loop f sample_funcs [] = Inr sample_funcs"
| "sample_loop f sample_funcs (sample # rest) =
     (case f sample of
        Inl e \<Rightarrow> Inl e
      | Inr r \<Rightarrow> sample_loop f (sample_funcs @ [r]) rest)"

text \<open>
  The branch for \<^verbatim>\<open>proc > 1\<close>: \<^verbatim>\<open>Parallel(n_jobs=proc)(delayed(f)(...) for sample in ...)\<close>
  of joblib, by its contract: the list of the results of the tasks in the order of the
  iterable, each task run on its own copy of the arguments; the call raises when a
  task raises. Scheduling and the worker processes are outside the model.
\<close>

fun collect :: "(error + 'a) list \<Rightarrow> error + 'a list" where
  "collect [] = Inr []"
| "collect (Inl e # rs) = Inl e"
| "collect (Inr x # rs) = (case collect rs of Inl e \<Rightarrow> Inl e | Inr xs \<Rightarrow> Inr (x # xs))"

definition parallel ::
  "(string \<Rightarrow> error + rowkey series) \<Rightarrow> string list \<Rightarrow> error + rowkey series list"
where
  "parallel f sample_ids = collect (map f sample_ids)"

text \<open>
  \<^verbatim>\<open>pd.concat(sample_funcs, axis=1)\<close> raises ValueError on an empty list. The series of
  the samples all carry the same row labels (lemma \<open>func_by_seq_abun_index\<close> below), so
  the outer join of pandas keeps the labels of the first; the columns are numbered.
\<close>

definition pd_concat :: "'r series list \<Rightarrow> error + ('r, nat) frame" where
  "pd_concat ss =
     (case ss of
        [] \<Rightarrow> Inl ValueError
      | s # rest \<Rightarrow>
          Inr \<lparr>index = s_index s, columns = [0..<length ss],
               cell = (\<lambda>r j. s_value (ss ! j) r)\<rparr>)"

text \<open>\<^verbatim>\<open>df.loc[~(df==0).all(axis=1)]\<close>: a row stays unless every cell of it equals 0.\<close>

definition drop_zero_rows :: "('r, 'c) frame \<Rightarrow> ('r, 'c) frame" where
  "drop_zero_rows df =
     df\<lparr>index := filter (\<lambda>r. \<not> list_all (\<lambda>c. cell df r c = Fin 0) (columns df)) (index df)\<rparr>"

text \<open>\<^verbatim>\<open>df.columns = sample_ids\<close>: the columns are renamed by position.\<close>

fun first_pos :: "'a \<Rightarrow> 'a list \<Rightarrow> nat" where
  "first_pos c [] = 0"
| "first_pos c (x # xs) = (if x = c then 0 else Suc (first_pos c xs))"

definition set_columns :: "('r, nat) frame \<Rightarrow> 'c list \<Rightarrow> ('r, 'c) frame" where
  "set_columns df ids =
     \<lparr>index = index df, columns = ids,
      cell = (\<lambda>r c. if c \<in> set ids then cell df r (columns df ! first_pos c ids) else NaN)\<rparr>"

text \<open>
  \<^verbatim>\<open>pd.pivot_table(df.reset_index().drop("sequence", axis=1), index="function",
  aggfunc=np.sum)\<close>: \<^verbatim>\<open>reset_index\<close> turns the two levels of the row labels into columns
  (ValueError when a column of that name exists already); the rows are grouped by
  function and every sample column is summed within a group. pandas sorts the groups
  and the columns of the result. With \<^verbatim>\<open>dropna=True\<close>, the default, it then leaves out
  every row of the result whose entries are all NaN (when the result has a column) and
  after that every column whose entries are all NaN. A table without rows loses all
  its columns that way; a sum that skips NaN is NaN only where infinities of both
  signs meet.
\<close>

definition group_rows :: "rowkey list \<Rightarrow> string \<Rightarrow> rowkey list" where
  "group_rows idx f = filter (\<lambda>k. case k of FuncSeq g q \<Rightarrow> g = f | FuncId g \<Rightarrow> False) idx"

definition functions_of :: "rowkey list \<Rightarrow> string list" where
  "functions_of idx = concat (map (\<lambda>k. case k of FuncSeq g q \<Rightarrow> [g] | FuncId g \<Rightarrow> []) idx)"

definition group_sum :: "(rowkey, string) frame \<Rightarrow> string \<Rightarrow> string \<Rightarrow> num" where
  "group_sum df f s = nansum (map (\<lambda>r. cell df r s) (group_rows (index df) f))"

definition pivot_table :: "(rowkey, string) frame \<Rightarrow> error + (rowkey, string) frame" where
  "pivot_table df =
     (if ''function'' \<in> set (columns df) \<or> ''sequence'' \<in> set (columns df) then Inl ValueError
      else
        let groups = sort (remdups (functions_of (index df)));
            samples = sort (columns df);
            kept_rows =
              (if samples = [] then groups
               else filter (\<lambda>f. \<not> list_all (\<lambda>s. group_sum df f s = NaN) samples) groups);
            kept_columns =
              filter (\<lambda>s. \<not> list_all (\<lambda>f. group_sum df f s = NaN) kept_rows) samples
        in Inr \<lparr>index = map FuncId kept_rows, columns = kept_columns,
                  cell = (\<lambda>k s. case k of FuncId f \<Rightarrow> group_sum df f s
                                          | FuncSeq f q \<Rightarrow> NaN)\<rparr>)"

text \<open>The rare sequences of \<^verbatim>\<open>funcs_by_sample\<close>: the classifier runs only for a
  stratified table with a threshold other than 1.\<close>

definition rare_seqs_of ::
  "(num list \<Rightarrow> num) \<Rightarrow> (string, string) frame \<Rightarrow> bool \<Rightarrow> int \<Rightarrow> int
     \<Rightarrow> error + string list"
where
  "rare_seqs_of row_total input_seq_counts strat_out min_reads min_samples =
     (if strat_out \<and> (min_reads \<noteq> 1 \<or> min_samples \<noteq> 1)
      then id_rare_seqs row_total input_seq_counts min_reads min_samples
      else Inr [])"

definition sample_funcs_of ::
  "(string, string) frame \<Rightarrow> (string, string) frame \<Rightarrow> string list \<Rightarrow> bool \<Rightarrow> int
     \<Rightarrow> error + rowkey series list"
where
  "sample_funcs_of input_seq_counts input_function_num rare_seqs strat_out proc =
     (let task = (\<lambda>sample. func_by_seq_abun (col input_seq_counts sample)
                                input_function_num rare_seqs strat_out)
      in if proc > 1 then parallel task (columns input_seq_counts)
         else sample_loop task [] (columns input_seq_counts))"

definition funcs_by_sample ::
  "(num list \<Rightarrow> num) \<Rightarrow> (string, string) frame \<Rightarrow> (string, string) frame \<Rightarrow> bool
     \<Rightarrow> int \<Rightarrow> int \<Rightarrow> int
     \<Rightarrow> error + ((rowkey, string) frame option \<times> (rowkey, string) frame)"
where
  "funcs_by_sample row_total input_seq_counts input_function_num strat_out proc
       min_reads min_samples =
     (let sample_ids = columns input_seq_counts
      in case rare_seqs_of row_total input_seq_counts strat_out min_reads min_samples of
           Inl e \<Rightarrow> Inl e
         | Inr rare_seqs \<Rightarrow>
             (case sample_funcs_of input_seq_counts input_function_num rare_seqs strat_out proc of
                Inl e \<Rightarrow> Inl e
              | Inr sample_funcs \<Rightarrow>
                  (case pd_concat sample_funcs of
                     Inl e \<Rightarrow> Inl e
                   | Inr concatenated \<Rightarrow>
                       let sample_funcs_df = set_columns (drop_zero_rows concatenated) sample_ids
                       in if strat_out then
                            (case pivot_table sample_funcs_df of
                               Inl e \<Rightarrow> Inl e
                             | Inr unstrat_out_df \<Rightarrow> Inr (Some sample_funcs_df, unstrat_out_df))
                          else Inr (None, sample_funcs_df))))"

subsection \<open>\<^verbatim>\<open>run_metagenome_pipeline\<close>\<close>

text \<open>
  Modelled from the spec: \<^verbatim>\<open>three_df_index_overlap_sort\<close> of \<^verbatim>\<open>picrust2.util\<close> is not among
  the sources. Section 4.1 of the specification: the intersection of the three sets of
  row labels, each table reindexed to it in one shared order; an empty intersection is
  a fatal error. The shared order here is that of the first table.
\<close>

definition three_df_index_overlap_sort ::
  "(string, 'a) frame \<Rightarrow> (string, 'b) frame \<Rightarrow> (string, 'c) frame
     \<Rightarrow> error + ((string, 'a) frame \<times> (string, 'b) frame \<times> (string, 'c) frame)"
where
  "three_df_index_overlap_sort df1 df2 df3 =
     (let label_overlap =
            filter (\<lambda>q. q \<in> set (index df2) \<and> q \<in> set (index df3)) (index df1)
      in if label_overlap = [] then Inl ValueError
         else Inr (df1\<lparr>index := label_overlap\<rparr>, df2\<lparr>index := label_overlap\<rparr>,
                   df3\<lparr>index := label_overlap\<rparr>))"

text \<open>
  The confidence filter, written twice in the source (for the function table, then
  for the marker table): when the table has a column \<^verbatim>\<open>metadata_NSTI\<close>, only the rows
  with a value \<open>\<le> max_nsti\<close> stay, the column of the rows that stay becomes \<^verbatim>\<open>nsti_val\<close>,
  and the column is dropped from the table.
\<close>

definition nsti_filter ::
  "num \<Rightarrow> (string, string) frame \<Rightarrow> (string, string) frame
     \<Rightarrow> (string, string) frame \<times> (string, string) frame"
where
  "nsti_filter max_nsti pred nsti_val =
     (if ''metadata_NSTI'' \<in> set (columns pred) then
        let kept = filter (\<lambda>q. fle (cell pred q ''metadata_NSTI'') max_nsti) (index pred)
        in (\<lparr>index = kept, columns = [''metadata_NSTI''], cell = cell pred\<rparr>,
            \<lparr>index = kept, columns = filter (\<lambda>c. c \<noteq> ''metadata_NSTI'') (columns pred),
             cell = cell pred\<rparr>)
      else (nsti_val, pred))"

definition empty_frame :: "(string, string) frame" where
  "empty_frame = \<lparr>index = [], columns = [], cell = (\<lambda>r c. NaN)\<rparr>"

text \<open>\<^verbatim>\<open>df.empty\<close>: no rows or no columns.\<close>

definition is_empty :: "('r, 'c) frame \<Rightarrow> bool" where
  "is_empty df = (index df = [] \<or> columns df = [])"

text \<open>
  The pipeline from the three tables as read from the files (reading them, creating
  the output directory and writing the files are outside the model). \<open>prepare_tables\<close>
  is the source up to the aligned tables and \<^verbatim>\<open>nsti_val\<close>; the weighted NSTI table is
  computed for its file only, and an exception of it would end the pipeline.
\<close>

definition prepare_tables ::
  "(string, string) frame \<Rightarrow> (string, string) frame \<Rightarrow> (string, string) frame \<Rightarrow> num
     \<Rightarrow> error + ((string, string) frame \<times> (string, string) frame \<times> (string, string) frame
                  \<times> (string, string) frame)"
where
  "prepare_tables study_seq_counts pred_function pred_marker max_nsti =
     (let (nsti_val1, pred_function1) = nsti_filter max_nsti pred_function empty_frame;
          (nsti_val, pred_marker1) = nsti_filter max_nsti pred_marker nsti_val1
      in case three_df_index_overlap_sort study_seq_counts pred_function1 pred_marker1 of
           Inl e \<Rightarrow> Inl e
         | Inr (counts, func, marker) \<Rightarrow> Inr (counts, func, marker, nsti_val))"

definition run_metagenome_pipeline ::
  "(num list \<Rightarrow> num) \<Rightarrow> (string, string) frame \<Rightarrow> (string, string) frame
     \<Rightarrow> (string, string) frame \<Rightarrow> num \<Rightarrow> int \<Rightarrow> int \<Rightarrow> bool \<Rightarrow> int
     \<Rightarrow> error + ((rowkey, string) frame option \<times> (rowkey, string) frame)"
where
  "run_metagenome_pipeline row_total study_seq_counts pred_function pred_marker max_nsti
       min_reads min_samples strat_out proc =
     (case prepare_tables study_seq_counts pred_function pred_marker max_nsti of
        Inl e \<Rightarrow> Inl e
      | Inr (counts, func, marker, nsti_val) \<Rightarrow>
          (case norm_by_marker_copies counts marker 2 of
             Inl e \<Rightarrow> Inl e
           | Inr normed \<Rightarrow>
               (case (if \<not> is_empty nsti_val then calc_weighted_nsti normed nsti_val
                      else Inr empty_frame) of
                  Inl e \<Rightarrow> Inl e
                | Inr weighted_nsti \<Rightarrow>
                    funcs_by_sample row_total normed func strat_out proc min_reads min_samples)))"

section \<open>Tables of the examples\<close>

definition rare_table :: "(string, string) frame" where
  "rare_table =
     from_rows [''s1'', ''s2''] [(''seqA'', [Fin 3, Fin 0]), (''seqB'', [Fin 1, Fin 1])]"

definition threshold_table :: "(string, string) frame" where
  "threshold_table =
     from_rows [''s1'', ''s2'', ''s3'']
       [(''seqA'', [Fin 2, Fin 1, Fin 0]), (''seqB'', [Fin 1, Fin 1, Fin 0]),
        (''seqC'', [Fin 5, Fin 0, Fin 0])]"

definition abundance_table :: "(string, string) frame" where
  "abundance_table =
     from_rows [''s1'', ''s2''] [(''seqA'', [Fin 10, Fin 0]), (''seqB'', [Fin 0, Fin 5])]"

definition zero_table :: "(string, string) frame" where
  "zero_table =
     from_rows [''s1'', ''s2''] [(''seqA'', [Fin 0, Fin 0]), (''seqB'', [Fin 0, Fin 0])]"

definition marker_table :: "(string, string) frame" where
  "marker_table = from_rows [''16S_rRNA_Count''] [(''seqA'', [Fin 2]), (''seqB'', [Fin 1])]"

definition function_table :: "(string, string) frame" where
  "function_table = from_rows [''f1''] [(''seqA'', [Fin 1]), (''seqB'', [Fin 2])]"

definition named_rare_table :: "(string, string) frame" where
  "named_rare_table =
     from_rows [''s1'', ''s2''] [(''seqA'', [Fin 10, Fin 0]), (''RARE'', [Fin 0, Fin 5])]"

definition half_table :: "(string, string) frame" where
  "half_table =
     from_rows [''s1'', ''s2''] [(''seqA'', [Fin (1 / 2), Fin 0]), (''seqB'', [Fin 3, Fin 1])]"

definition ratio_table :: "(string, string) frame" where
  "ratio_table =
     from_rows [''s1'', ''s2''] [(''seqA'', [Fin 10, Fin 0]), (''seqB'', [Fin 23, Fin 5])]"

definition ratio_marker_table :: "(string, string) frame" where
  "ratio_marker_table =
     from_rows [''16S_rRNA_Count''] [(''seqA'', [Fin 0]), (''seqB'', [Fin 40])]"

definition zero_marker_table :: "(string, string) frame" where
  "zero_marker_table = from_rows [''16S_rRNA_Count''] [(''seqA'', [Fin 0]), (''seqB'', [Fin 1])]"

definition one_seq_table :: "(string, string) frame" where
  "one_seq_table = from_rows [''s1'', ''s2''] [(''seqA'', [Fin 5, Fin 0])]"

definition nsti_table :: "(string, string) frame" where
  "nsti_table = from_rows [''metadata_NSTI''] [(''seqA'', [Fin (1 / 2)])]"

definition normalised_table :: "(string, string) frame" where
  "normalised_table =
     from_rows [''s1'', ''s2''] [(''seqA'', [Fin 5, Fin 0]), (''seqB'', [Fin 0, Fin 5])]"

definition scored_function_table :: "(string, string) frame" where
  "scored_function_table =
     from_rows [''f1'', ''metadata_NSTI'']
       [(''seqA'', [Fin 1, Fin (1 / 2)]), (''seqB'', [Fin 2, Fin 1]),
        (''seqC'', [Fin 3, Fin (5 / 2)])]"

definition three_seq_table :: "(string, string) frame" where
  "three_seq_table =
     from_rows [''s1'', ''s2'']
       [(''seqA'', [Fin 10, Fin 0]), (''seqB'', [Fin 0, Fin 5]), (''seqC'', [Fin 7, Fin 7])]"

definition three_marker_table :: "(string, string) frame" where
  "three_marker_table =
     from_rows [''16S_rRNA_Count''] [(''seqA'', [Fin 2]), (''seqB'', [Fin 1]), (''seqC'', [Fin 1])]"

definition named_rare_function_table :: "(string, string) frame" where
  "named_rare_function_table = from_rows [''f1''] [(''seqA'', [Fin 1]), (''RARE'', [Fin 2])]"

definition named_rare_marker_table :: "(string, string) frame" where
  "named_rare_marker_table =
     from_rows [''16S_rRNA_Count''] [(''seqA'', [Fin 2]), (''RARE'', [Fin 1])]"

section \<open>Properties\<close>

subsection \<open>The rare-sequence classifier\<close>

text \<open>
  C10. Both comparisons of \<^verbatim>\<open>id_rare_seqs\<close> are strict, whatever total pandas computes
  for a row. A sequence is in the low-frequency set exactly when the total of its row
  is below \<open>min_reads\<close>, and in the few-samples set exactly when the number of its
  cells other than 0 is below \<open>min_samples\<close>; the classifier returns exactly the
  sequences in one of the two sets. So a sequence whose total equals \<open>min_reads\<close> is not
  in the first set, one that is non-zero in exactly \<open>min_samples\<close> samples is not in the
  second, and one at both thresholds is not returned.
\<close>

theorem rare_thresholds_strict:
  "(q \<in> set (low_freq_seq row_total t min_reads) \<longleftrightarrow>
      q \<in> set (index t) \<and>
      flt (row_total (map (\<lambda>c. cell t q c) (columns t))) (Fin (of_int min_reads))) \<and>
   (q \<in> set (few_samples_seq t min_samples) \<longleftrightarrow>
      q \<in> set (index t) \<and>
      int (length (filter (\<lambda>c. cell t q c \<noteq> Fin 0) (columns t))) < min_samples) \<and>
   (row_total (map (\<lambda>c. cell t q c) (columns t)) = Fin a \<longrightarrow>
      (q \<in> set (low_freq_seq row_total t min_reads) \<longleftrightarrow>
         q \<in> set (index t) \<and> a < of_int min_reads)) \<and>
   (row_total (map (\<lambda>c. cell t q c) (columns t)) = Fin (of_int min_reads) \<longrightarrow>
      q \<notin> set (low_freq_seq row_total t min_reads)) \<and>
   (int (length (filter (\<lambda>c. cell t q c \<noteq> Fin 0) (columns t))) = min_samples \<longrightarrow>
      q \<notin> set (few_samples_seq t min_samples)) \<and>
   (id_rare_seqs row_total t min_reads min_samples = Inr rare \<longrightarrow>
      (q \<in> set rare \<longleftrightarrow>
         q \<in> set (index t) \<and>
         (flt (row_total (map (\<lambda>c. cell t q c) (columns t))) (Fin (of_int min_reads)) \<or>
          int (length (filter (\<lambda>c. cell t q c \<noteq> Fin 0) (columns t))) < min_samples))) \<and>
   (id_rare_seqs row_total t min_reads min_samples = Inr rare \<and>
    row_total (map (\<lambda>c. cell t q c) (columns t)) = Fin (of_int min_reads) \<and>
    int (length (filter (\<lambda>c. cell t q c \<noteq> Fin 0) (columns t))) = min_samples \<longrightarrow>
      q \<notin> set rare)"
  by (auto simp: low_freq_seq_def few_samples_seq_def nonzero_count_def row_values_def
        id_rare_seqs_def split: if_splits)

theorem rare_thresholds_strict_witness:
  "map (\<lambda>c. cell threshold_table ''seqA'' c) (columns threshold_table) = [Fin 2, Fin 1, Fin 0] \<and>
   nansum [Fin 2, Fin 1, Fin 0] = Fin (of_int 3) \<and>
   int (length (filter (\<lambda>c. cell threshold_table ''seqA'' c \<noteq> Fin 0)
                  (columns threshold_table))) = 2 \<and>
   id_rare_seqs nansum threshold_table 3 2 = Inr [''seqB'', ''seqC''] \<and>
   ''seqA'' \<notin> set (low_freq_seq nansum threshold_table 3) \<and>
   ''seqA'' \<notin> set (few_samples_seq threshold_table 2) \<and>
   ''seqB'' \<in> set (low_freq_seq nansum threshold_table 3) \<and>
   ''seqB'' \<notin> set (few_samples_seq threshold_table 2) \<and>
   ''seqC'' \<notin> set (low_freq_seq nansum threshold_table 3) \<and>
   ''seqC'' \<in> set (few_samples_seq threshold_table 2)"
proof -
  have i: "index threshold_table = [''seqA'', ''seqB'', ''seqC'']"
      "columns threshold_table = [''s1'', ''s2'', ''s3'']"
    by (simp_all add: threshold_table_def from_rows_def)
  have ca: "map (\<lambda>c. cell threshold_table ''seqA'' c) (columns threshold_table)
              = [Fin 2, Fin 1, Fin 0]"
    and cb: "map (\<lambda>c. cell threshold_table ''seqB'' c) (columns threshold_table)
              = [Fin 1, Fin 1, Fin 0]"
    and cc: "map (\<lambda>c. cell threshold_table ''seqC'' c) (columns threshold_table)
              = [Fin 5, Fin 0, Fin 0]"
    by (simp_all add: threshold_table_def from_rows_def)
  have ca': "cell threshold_table ''seqA'' ''s1'' = Fin 2"
      "cell threshold_table ''seqA'' ''s2'' = Fin 1" "cell threshold_table ''seqA'' ''s3'' = Fin 0"
    and cb': "cell threshold_table ''seqB'' ''s1'' = Fin 1"
      "cell threshold_table ''seqB'' ''s2'' = Fin 1" "cell threshold_table ''seqB'' ''s3'' = Fin 0"
    and cc': "cell threshold_table ''seqC'' ''s1'' = Fin 5"
      "cell threshold_table ''seqC'' ''s2'' = Fin 0" "cell threshold_table ''seqC'' ''s3'' = Fin 0"
    by (simp_all add: threshold_table_def from_rows_def)
  have n: "nansum [Fin 2, Fin 1, Fin 0] = Fin (of_int 3)" "nansum [Fin 1, Fin 1, Fin 0] = Fin 2"
      "nansum [Fin 5, Fin 0, Fin 0] = Fin 5"
    by (simp_all add: nansum_def)
  have r: "id_rare_seqs nansum threshold_table 3 2 = Inr [''seqB'', ''seqC'']"
    by code_simp
  from rare_thresholds_strict
         [where row_total = nansum and t = threshold_table and q = "''seqA''" and min_reads = 3
            and min_samples = 2 and a = 3 and rare = "[''seqB'', ''seqC'']"]
  have "''seqA'' \<notin> set (low_freq_seq nansum threshold_table 3) \<and>
        ''seqA'' \<notin> set (few_samples_seq threshold_table 2)"
    by (simp add: ca n i ca')
  moreover from rare_thresholds_strict
         [where row_total = nansum and t = threshold_table and q = "''seqB''" and min_reads = 3
            and min_samples = 2 and a = 2 and rare = "[''seqB'', ''seqC'']"]
  have "''seqB'' \<in> set (low_freq_seq nansum threshold_table 3) \<and>
        ''seqB'' \<notin> set (few_samples_seq threshold_table 2)"
    by (simp add: cb n i cb')
  moreover from rare_thresholds_strict
         [where row_total = nansum and t = threshold_table and q = "''seqC''" and min_reads = 3
            and min_samples = 2 and a = 5 and rare = "[''seqB'', ''seqC'']"]
  have "''seqC'' \<notin> set (low_freq_seq nansum threshold_table 3) \<and>
        ''seqC'' \<in> set (few_samples_seq threshold_table 2)"
    by (simp add: cc n i cc')
  ultimately show ?thesis using ca n r by (simp add: i ca')
qed

subsection \<open>The two branches of the aggregator\<close>

lemma sample_loop_collect:
  "sample_loop f acc xs =
     (case collect (map f xs) of Inl e \<Rightarrow> Inl e | Inr ys \<Rightarrow> Inr (acc @ ys))"
proof (induction xs arbitrary: acc)
  case Nil
  show ?case by simp
next
  case (Cons x xs)
  show ?case
  proof (cases "f x")
    case (Inl e)
    then show ?thesis by simp
  next
    case (Inr r)
    then show ?thesis by (simp add: Cons.IH split: sum.splits)
  qed
qed

lemma sample_loop_nil: "sample_loop f [] xs = collect (map f xs)"
  by (simp add: sample_loop_collect split: sum.splits)

lemma sample_funcs_of_collect:
  "sample_funcs_of t F rare strat proc =
     collect (map (\<lambda>sample. func_by_seq_abun (col t sample) F rare strat) (columns t))"
  by (simp add: sample_funcs_of_def Let_def parallel_def sample_loop_nil)

text \<open>
  C8. The aggregator with one process and with any larger number of processes returns
  the same result on the same input (tables, thresholds, stratification flag): the
  loop and the parallel branch build the same list of per-sample results, and all that
  follows is shared.
\<close>

theorem parallel_equals_sequential:
  "1 < proc \<Longrightarrow>
   sample_funcs_of t F rare strat_out proc = sample_funcs_of t F rare strat_out 1 \<and>
   funcs_by_sample row_total t F strat_out proc min_reads min_samples =
     funcs_by_sample row_total t F strat_out 1 min_reads min_samples"
  unfolding funcs_by_sample_def sample_funcs_of_collect by simp

theorem parallel_equals_sequential_witness:
  "(1::int) < 4 \<and>
   funcs_by_sample nansum abundance_table function_table True 4 6 1 =
     funcs_by_sample nansum abundance_table function_table True 1 6 1 \<and>
   map_sum id (\<lambda>(s, u). (map_option as_dict s, as_dict u))
       (funcs_by_sample nansum abundance_table function_table True 1 6 1)
     = Inr (Some [(FuncSeq ''f1'' ''seqA'', [(''s1'', Fin 10), (''s2'', Fin 0)]),
                  (FuncSeq ''f1'' ''RARE'', [(''s1'', Fin 0), (''s2'', Fin 10)])],
            [(FuncId ''f1'', [(''s1'', Fin 10), (''s2'', Fin 10)])])"
proof -
  have b: "map_sum id (\<lambda>(s, u). (map_option as_dict s, as_dict u))
       (funcs_by_sample nansum abundance_table function_table True 1 6 1)
     = Inr (Some [(FuncSeq ''f1'' ''seqA'', [(''s1'', Fin 10), (''s2'', Fin 0)]),
                  (FuncSeq ''f1'' ''RARE'', [(''s1'', Fin 0), (''s2'', Fin 10)])],
            [(FuncId ''f1'', [(''s1'', Fin 10), (''s2'', Fin 10)])])"
    by code_simp
  from b parallel_equals_sequential
         [where proc = 4 and row_total = nansum and t = abundance_table and F = function_table
            and strat_out = True and min_reads = 6 and min_samples = 1]
  show ?thesis by simp
qed

subsection \<open>What the aggregator returns\<close>

lemma collect_Inr: "(\<And>x. x \<in> set xs \<Longrightarrow> f x = Inr (g x)) \<Longrightarrow> collect (map f xs) = Inr (map g xs)"
  by (induction xs) auto

lemma funcs_by_sample_strat:
  assumes "funcs_by_sample row_total t F strat_out proc min_reads min_samples = Inr (strat, unstrat)"
  shows "(strat = None) = (\<not> strat_out)"
proof -
  from assms obtain rare sf df where
    r: "(if strat_out then
           (case pivot_table (set_columns (drop_zero_rows df) (columns t)) of
              Inl e \<Rightarrow> Inl e
            | Inr u \<Rightarrow> Inr (Some (set_columns (drop_zero_rows df) (columns t)), u))
         else Inr (None, set_columns (drop_zero_rows df) (columns t))) = Inr (strat, unstrat)"
    unfolding funcs_by_sample_def Let_def by (simp split: sum.splits)
  then show ?thesis
    by (cases strat_out) (simp_all split: sum.splits, auto)
qed


lemma funcs_by_sample_unstrat_total:
  assumes "columns t \<noteq> []"
  shows "\<exists>unstrat. funcs_by_sample row_total t F False proc min_reads min_samples = Inr (None, unstrat)"
proof -
  define g where "g = (\<lambda>x. projr (func_by_seq_abun (col t x) F [] False))"
  have g: "func_by_seq_abun (col t x) F [] False = Inr (g x)" for x
    unfolding g_def by (simp add: func_by_seq_abun_def collapse_rare_def)
  have sf: "sample_funcs_of t F [] False proc = Inr (map g (columns t))"
    unfolding sample_funcs_of_collect by (rule collect_Inr) (simp add: g)
  obtain c cs where c: "columns t = c # cs"
    using assms by (cases "columns t") simp_all
  have pc: "\<exists>df. pd_concat (map g (columns t)) = Inr df"
    by (simp add: pd_concat_def c)
  then obtain df where df: "pd_concat (map g (columns t)) = Inr df" ..
  have r: "rare_seqs_of row_total t False min_reads min_samples = Inr []"
    by (simp add: rare_seqs_of_def)
  show ?thesis
    unfolding funcs_by_sample_def Let_def by (simp add: r sf df)
qed



subsection \<open>The rare set and the thresholds\<close>

lemma flt_mono: "flt x (Fin a) \<Longrightarrow> a \<le> b \<Longrightarrow> flt x (Fin b)"
  by (cases x) auto

text \<open>
  C7, as stated, fails. On a normalised table with a sequence of total abundance 1/2
  the classifier at thresholds 1 and 1 returns that sequence, so its set is not empty
  there; and the set the aggregator uses shrinks from that sequence to nothing when
  \<open>min_samples\<close> is raised from 0 to 1, because the aggregator skips the classifier at
  thresholds 1 and 1.
\<close>

theorem rare_set_counterexample:
  "id_rare_seqs nansum half_table 1 1 = Inr [''seqA''] \<and>
   rare_seqs_of nansum half_table True 1 0 = Inr [''seqA''] \<and>
   rare_seqs_of nansum half_table True 1 1 = Inr []"
  by code_simp

text \<open>
  C7, amended. The list the classifier returns holds exactly the sequences of the
  low-frequency set and of the few-samples set (their union); raising \<open>min_reads\<close> or
  \<open>min_samples\<close> never removes a sequence from the classifier's result; and the
  aggregator uses the empty rare set at thresholds 1 and 1 and whenever no stratified
  output is requested, without running the classifier.
\<close>

theorem rare_set_union_monotone:
  "(id_rare_seqs row_total t min_reads min_samples = Inr rare \<longrightarrow>
      set rare = set (low_freq_seq row_total t min_reads) \<union> set (few_samples_seq t min_samples)) \<and>
   (min_reads \<le> min_reads' \<and> min_samples \<le> min_samples' \<and>
    id_rare_seqs row_total t min_reads min_samples = Inr rare \<and>
    id_rare_seqs row_total t min_reads' min_samples' = Inr rare' \<longrightarrow> set rare \<subseteq> set rare') \<and>
   rare_seqs_of row_total t strat_out 1 1 = Inr [] \<and>
   rare_seqs_of row_total t False min_reads min_samples = Inr []"
proof (intro conjI impI)
  show "set rare = set (low_freq_seq row_total t min_reads) \<union> set (few_samples_seq t min_samples)"
    if "id_rare_seqs row_total t min_reads min_samples = Inr rare"
    using that by (auto simp: id_rare_seqs_def split: if_splits)
  show "set rare \<subseteq> set rare'"
    if h: "min_reads \<le> min_reads' \<and> min_samples \<le> min_samples' \<and>
        id_rare_seqs row_total t min_reads min_samples = Inr rare \<and>
        id_rare_seqs row_total t min_reads' min_samples' = Inr rare'"
  proof -
    have le: "(of_int min_reads :: rat) \<le> of_int min_reads'" using h by simp
    have "set (low_freq_seq row_total t min_reads) \<subseteq> set (low_freq_seq row_total t min_reads')"
      using flt_mono [OF _ le] by (auto simp: low_freq_seq_def)
    moreover have "set (few_samples_seq t min_samples) \<subseteq> set (few_samples_seq t min_samples')"
      using h by (auto simp: few_samples_seq_def)
    ultimately show ?thesis
      using h by (auto simp: id_rare_seqs_def split: if_splits)
  qed
  show "rare_seqs_of row_total t strat_out 1 1 = Inr []" by (simp add: rare_seqs_of_def)
  show "rare_seqs_of row_total t False min_reads min_samples = Inr []" by (simp add: rare_seqs_of_def)
qed

theorem rare_set_union_monotone_witness:
  "(2::int) \<le> 4 \<and> (1::int) \<le> 2 \<and>
   id_rare_seqs nansum rare_table 2 1 = Inr [] \<and>
   id_rare_seqs nansum rare_table 4 2 = Inr [''seqB'', ''seqA''] \<and>
   set ([]::string list) \<subseteq> set [''seqB'', ''seqA''] \<and>
   set [''seqB'', ''seqA''] = set (low_freq_seq nansum rare_table 4) \<union> set (few_samples_seq rare_table 2)"
proof -
  have a: "id_rare_seqs nansum rare_table 2 1 = Inr []" by code_simp
  have b: "id_rare_seqs nansum rare_table 4 2 = Inr [''seqB'', ''seqA'']" by code_simp
  from a b rare_set_union_monotone
         [where row_total = nansum and t = rare_table and min_reads = 2 and min_samples = 1
            and rare = "[]" and min_reads' = 4 and min_samples' = 2
            and rare' = "[''seqB'', ''seqA'']"]
    rare_set_union_monotone
         [where row_total = nansum and t = rare_table and min_reads = 4 and min_samples = 2
            and rare = "[''seqB'', ''seqA'']" and min_reads' = 4 and min_samples' = 2
            and rare' = "[''seqB'', ''seqA'']"]
  show ?thesis by simp
qed

subsection \<open>Normalisation by marker copies\<close>

text \<open>
  C3, as stated, fails. With a marker copy number of zero for seqA the normalisation
  returns a table and no error; the row of seqA holds an infinity for the count 10 and
  NaN for the count 0.
\<close>

theorem zero_marker_counterexample:
  "map_sum id as_dict (norm_by_marker_copies abundance_table zero_marker_table 2) =
     Inr [(''seqA'', [(''s1'', PInf), (''s2'', NaN)]),
          (''seqB'', [(''s1'', Fin 0), (''s2'', Fin 5)])]"
  by code_simp

text \<open>
  C3, amended. When the marker table has a column and a row for every sequence of the
  counts, the normalisation returns a table over the same rows and columns, whatever
  the marker values are. A finite count over a non-zero finite marker value gives a
  finite cell: the quotient rounded to the given number of decimals as numpy rounds
  it in binary64; over a marker value of zero it gives NaN for a zero count and an
  infinity of the sign of the count otherwise.
\<close>

theorem norm_by_marker_copies_values:
  assumes "columns marker = m # ms" and "set (index counts) \<subseteq> set (index marker)"
  shows "\<exists>t. norm_by_marker_copies counts marker d = Inr t \<and>
           index t = index counts \<and> columns t = columns counts \<and>
           (\<forall>q c a b. cell counts q c = Fin a \<and> cell marker q m = Fin b \<longrightarrow>
              cell t q c =
                (if b \<noteq> 0
                 then Fin (rn64 (of_int (rint (rn64 (rn64 (a / b) * 10 ^ d))) / 10 ^ d))
                 else if a = 0 then NaN else if 0 < a then PInf else NInf))"
  using assms by (simp add: norm_by_marker_copies_def)

theorem norm_by_marker_copies_values_witness:
  "columns ratio_marker_table = [''16S_rRNA_Count''] \<and>
   set (index ratio_table) \<subseteq> set (index ratio_marker_table) \<and>
   cell ratio_table ''seqA'' ''s1'' = Fin 10 \<and>
   cell ratio_table ''seqA'' ''s2'' = Fin 0 \<and>
   cell ratio_table ''seqB'' ''s1'' = Fin 23 \<and>
   cell ratio_table ''seqB'' ''s2'' = Fin 5 \<and>
   cell ratio_marker_table ''seqA'' ''16S_rRNA_Count'' = Fin 0 \<and>
   cell ratio_marker_table ''seqB'' ''16S_rRNA_Count'' = Fin 40 \<and>
   (\<exists>t. norm_by_marker_copies ratio_table ratio_marker_table 2 = Inr t \<and>
        cell t ''seqA'' ''s1'' = PInf \<and> cell t ''seqA'' ''s2'' = NaN \<and>
        cell t ''seqB'' ''s1'' = Fin (5134103575202365 / 9007199254740992) \<and>
        cell t ''seqB'' ''s2'' = Fin (1080863910568919 / 9007199254740992)) \<and>
   (57 / 100 - 5134103575202365 / 9007199254740992 :: rat) < 1 / 10 ^ 16 \<and>
   (5134103575202365 / 9007199254740992 :: rat) < 57 / 100"
proof -
  have a: "columns ratio_marker_table = [''16S_rRNA_Count'']"
    by (simp add: ratio_marker_table_def from_rows_def)
  have b: "set (index ratio_table) \<subseteq> set (index ratio_marker_table)"
    by (simp add: ratio_marker_table_def ratio_table_def from_rows_def)
  have c: "cell ratio_table ''seqA'' ''s1'' = Fin 10"
     "cell ratio_table ''seqA'' ''s2'' = Fin 0"
     "cell ratio_table ''seqB'' ''s1'' = Fin 23"
     "cell ratio_table ''seqB'' ''s2'' = Fin 5"
     "cell ratio_marker_table ''seqA'' ''16S_rRNA_Count'' = Fin 0"
     "cell ratio_marker_table ''seqB'' ''16S_rRNA_Count'' = Fin 40"
    by (simp_all add: ratio_marker_table_def ratio_table_def from_rows_def)
  have r1: "rn64 (of_int (rint (rn64 (rn64 (23 / 40) * 10 ^ 2))) / 10 ^ 2) =
              5134103575202365 / 9007199254740992"
    by code_simp
  have r2: "rn64 (of_int (rint (rn64 (rn64 (5 / 40) * 10 ^ 2))) / 10 ^ 2) =
              1080863910568919 / 9007199254740992"
    by code_simp
  from norm_by_marker_copies_values [OF a b, of 2] obtain t where
    t: "norm_by_marker_copies ratio_table ratio_marker_table 2 = Inr t"
    and v: "\<And>q c a b. cell ratio_table q c = Fin a \<Longrightarrow>
              cell ratio_marker_table q ''16S_rRNA_Count'' = Fin b \<Longrightarrow>
              cell t q c =
                (if b \<noteq> 0
                 then Fin (rn64 (of_int (rint (rn64 (rn64 (a / b) * 10 ^ 2))) / 10 ^ 2))
                 else if a = 0 then NaN else if 0 < a then PInf else NInf)"
    by blast
  have "cell t ''seqA'' ''s1'' = PInf" using v [OF c(1) c(5)] by simp
  moreover have "cell t ''seqA'' ''s2'' = NaN" using v [OF c(2) c(5)] by simp
  moreover have "cell t ''seqB'' ''s1'' = Fin (5134103575202365 / 9007199254740992)"
    using v [OF c(3) c(6)] by (simp only: r1) simp
  moreover have "cell t ''seqB'' ''s2'' = Fin (1080863910568919 / 9007199254740992)"
    using v [OF c(4) c(6)] by (simp only: r2) simp
  moreover have "(57 / 100 - 5134103575202365 / 9007199254740992 :: rat) < 1 / 10 ^ 16"
      "(5134103575202365 / 9007199254740992 :: rat) < 57 / 100"
    by simp_all
  ultimately show ?thesis using a b c t by blast
qed

subsection \<open>Sums of finite cells\<close>

lemma foldl_fadd_val:
  "list_all (\<lambda>x. x = NaN \<or> is_fin x) xs \<Longrightarrow>
   foldl fadd (Fin a) (filter (\<lambda>x. x \<noteq> NaN) xs) = Fin (a + sum_list (map val xs))"
proof (induction xs arbitrary: a)
  case Nil
  show ?case by simp
next
  case (Cons x xs)
  then show ?case by (cases x) (simp_all add: add.assoc)
qed

lemma nansum_val:
  "list_all (\<lambda>x. x = NaN \<or> is_fin x) xs \<Longrightarrow> nansum xs = Fin (sum_list (map val xs))"
  by (simp add: nansum_def foldl_fadd_val)

lemma nansum_map_val:
  "(\<And>x. x \<in> set xs \<Longrightarrow> g x = NaN \<or> is_fin (g x)) \<Longrightarrow>
   nansum (map g xs) = Fin (\<Sum>x\<leftarrow>xs. val (g x))"
  using nansum_val [of "map g xs"] by (simp add: list_all_iff comp_def)

lemma fmul_fin: "is_fin x \<Longrightarrow> is_fin y \<Longrightarrow> fmul x y = Fin (val x * val y)"
  by (cases x; cases y) simp_all

lemma set_align_union: "set (align_union a b) = set a \<union> set b"
  by (auto simp: align_union_def)

lemma sum_list_align_union:
  assumes "distinct a" and "set b \<subseteq> set a \<or> set a \<subseteq> set b"
    and z: "\<And>r. r \<notin> set a \<Longrightarrow> h r = (0::rat)"
  shows "sum_list (map h (align_union a b)) = sum_list (map h a)"
proof (cases "a = b \<or> b = []")
  case True
  then show ?thesis by (simp add: align_union_def)
next
  case False
  show ?thesis
  proof (cases "a = []")
    case True
    then have h0: "h = (\<lambda>r. 0)" using z by auto
    show ?thesis using True False by (simp add: align_union_def h0)
  next
    case ne: False
    have "sum_list (map h (sort (remdups (a @ b)))) = sum h (set a \<union> set b)"
      by (subst sum_list_distinct_conv_sum_set) simp_all
    also have "\<dots> = sum h (set a)"
      by (rule sum.mono_neutral_right) (auto simp: z)
    also have "\<dots> = sum_list (map h a)"
      using assms(1) by (simp add: sum_list_distinct_conv_sum_set)
    finally show ?thesis using False ne by (simp add: align_union_def)
  qed
qed

subsection \<open>The weighted NSTI\<close>

text \<open>
  C6, as stated, fails in its second half. For the sample s2, where the only sequence
  has abundance 0, the reporter returns a table and no error; the value of s2 is NaN.
\<close>

theorem zero_abundance_counterexample:
  "map_sum id as_dict (calc_weighted_nsti one_seq_table nsti_table) =
     Inr [(''s1'', [(''weighted_NSTI'', Fin (1 / 2))]), (''s2'', [(''weighted_NSTI'', NaN)])]"
  by code_simp

lemma weighted_numerator:
  assumes d: "distinct (index seq_counts)"
    and sub: "set (index seq_counts) \<subseteq> set (index nsti_input)"
    and fin: "\<And>q. q \<in> set (index seq_counts) \<Longrightarrow>
               is_fin (cell seq_counts q s) \<and> is_fin (cell nsti_input q ''metadata_NSTI'')"
  shows "col_sum (mul_index seq_counts (col nsti_input ''metadata_NSTI'')) s =
           Fin (\<Sum>q\<leftarrow>index seq_counts.
                  val (cell seq_counts q s) * val (cell nsti_input q ''metadata_NSTI''))"
proof -
  let ?g = "\<lambda>r. if r \<in> set (index seq_counts) \<and> r \<in> set (index nsti_input)
                 then fmul (cell seq_counts r s) (cell nsti_input r ''metadata_NSTI'') else NaN"
  let ?h = "\<lambda>r. if r \<in> set (index seq_counts)
                 then val (cell seq_counts r s) * val (cell nsti_input r ''metadata_NSTI'')
                 else 0"
  have g: "?g r = NaN \<or> is_fin (?g r)" for r
    using fin [of r] by (simp add: fmul_fin)
  have v: "val (?g r) = ?h r" for r
    using fin [of r] sub by (auto simp: fmul_fin)
  have "col_sum (mul_index seq_counts (col nsti_input ''metadata_NSTI'')) s =
          nansum (map ?g (align_union (index seq_counts) (index nsti_input)))"
    by (simp add: col_sum_def mul_index_def col_def cong: if_cong)
  also have "\<dots> = Fin (\<Sum>r\<leftarrow>align_union (index seq_counts) (index nsti_input). val (?g r))"
    by (rule nansum_map_val) (rule g)
  also have "(\<Sum>r\<leftarrow>align_union (index seq_counts) (index nsti_input). val (?g r)) =
             (\<Sum>r\<leftarrow>align_union (index seq_counts) (index nsti_input). ?h r)"
    by (simp only: v)
  also have "\<dots> = (\<Sum>r\<leftarrow>index seq_counts. ?h r)"
    by (rule sum_list_align_union) (use d sub in simp_all)
  also have "\<dots> = (\<Sum>q\<leftarrow>index seq_counts.
                  val (cell seq_counts q s) * val (cell nsti_input q ''metadata_NSTI''))"
    by (rule arg_cong [where f = sum_list]) simp
  finally show ?thesis .
qed

lemma weighted_denominator:
  assumes "\<And>q. q \<in> set (index seq_counts) \<Longrightarrow> is_fin (cell seq_counts q s)"
  shows "col_sum seq_counts s = Fin (\<Sum>q\<leftarrow>index seq_counts. val (cell seq_counts q s))"
  unfolding col_sum_def by (rule nansum_map_val) (simp add: assms)


text \<open>
  C6, amended. Given the NSTI column, the reporter never raises: it returns one row
  per sample. When the sequences of the abundance table are distinct, all have a
  score, and abundances and scores are finite, the value of a sample is the quotient
  of the sum of abundance times score by the sum of the abundances; for a sample of
  total abundance zero that quotient is not an error but NaN (when the weighted sum is
  zero as well, as it is for non-negative abundances) or an infinity.
\<close>

theorem weighted_nsti_value:
  assumes col: "''metadata_NSTI'' \<in> set (columns nsti_input)"
  shows "\<exists>w. calc_weighted_nsti seq_counts nsti_input = Inr w \<and>
           index w = columns seq_counts \<and> columns w = [''weighted_NSTI''] \<and>
           (distinct (index seq_counts) \<and> set (index seq_counts) \<subseteq> set (index nsti_input) \<and>
            (\<forall>q\<in>set (index seq_counts).
               is_fin (cell seq_counts q s) \<and> is_fin (cell nsti_input q ''metadata_NSTI'')) \<longrightarrow>
              (let weighted = (\<Sum>q\<leftarrow>index seq_counts.
                                 val (cell seq_counts q s) * val (cell nsti_input q ''metadata_NSTI''));
                   total = (\<Sum>q\<leftarrow>index seq_counts. val (cell seq_counts q s))
               in cell w s ''weighted_NSTI'' =
                    (if total \<noteq> 0 then Fin (weighted / total)
                     else if weighted = 0 then NaN
                     else if 0 < weighted then PInf else NInf)))"
proof -
  let ?w = "\<lparr>index = columns seq_counts, columns = [''weighted_NSTI''],
             cell = (\<lambda>s c. fdiv (col_sum (mul_index seq_counts (col nsti_input ''metadata_NSTI'')) s)
                               (col_sum seq_counts s))\<rparr>"
  have r: "calc_weighted_nsti seq_counts nsti_input = Inr ?w"
    using col by (simp add: calc_weighted_nsti_def)
  have "cell ?w s ''weighted_NSTI'' =
          (let weighted = (\<Sum>q\<leftarrow>index seq_counts.
                             val (cell seq_counts q s) * val (cell nsti_input q ''metadata_NSTI''));
               total = (\<Sum>q\<leftarrow>index seq_counts. val (cell seq_counts q s))
           in if total \<noteq> 0 then Fin (weighted / total)
              else if weighted = 0 then NaN
              else if 0 < weighted then PInf else NInf)"
    if h: "distinct (index seq_counts) \<and> set (index seq_counts) \<subseteq> set (index nsti_input) \<and>
            (\<forall>q\<in>set (index seq_counts).
               is_fin (cell seq_counts q s) \<and> is_fin (cell nsti_input q ''metadata_NSTI''))"
  proof -
    have n: "col_sum (mul_index seq_counts (col nsti_input ''metadata_NSTI'')) s =
           Fin (\<Sum>q\<leftarrow>index seq_counts.
                  val (cell seq_counts q s) * val (cell nsti_input q ''metadata_NSTI''))"
      by (rule weighted_numerator) (use h in simp_all)
    have d: "col_sum seq_counts s = Fin (\<Sum>q\<leftarrow>index seq_counts. val (cell seq_counts q s))"
      by (rule weighted_denominator) (use h in simp)
    show ?thesis by (simp add: n d Let_def)
  qed
  then show ?thesis using r by (simp add: Let_def)
qed

theorem weighted_nsti_value_witness:
  "''metadata_NSTI'' \<in> set (columns nsti_table) \<and>
   distinct (index one_seq_table) \<and>
   set (index one_seq_table) \<subseteq> set (index nsti_table) \<and>
   (\<exists>w. calc_weighted_nsti one_seq_table nsti_table = Inr w \<and>
        index w = [''s1'', ''s2''] \<and>
        cell w ''s1'' ''weighted_NSTI'' = Fin (1 / 2) \<and>
        cell w ''s2'' ''weighted_NSTI'' = NaN)"
proof -
  have a: "''metadata_NSTI'' \<in> set (columns nsti_table)"
    by (simp add: nsti_table_def from_rows_def)
  have i: "index one_seq_table = [''seqA'']" "index nsti_table = [''seqA'']"
      "columns one_seq_table = [''s1'', ''s2'']"
    by (simp_all add: one_seq_table_def nsti_table_def from_rows_def)
  have c: "cell one_seq_table ''seqA'' ''s1'' = Fin 5" "cell one_seq_table ''seqA'' ''s2'' = Fin 0"
      "cell nsti_table ''seqA'' ''metadata_NSTI'' = Fin (1 / 2)"
    by (simp_all add: one_seq_table_def nsti_table_def from_rows_def)
  from weighted_nsti_value [OF a, of one_seq_table "''s1''"] obtain w where
    w: "calc_weighted_nsti one_seq_table nsti_table = Inr w" "index w = [''s1'', ''s2'']"
      "cell w ''s1'' ''weighted_NSTI'' = Fin (1 / 2)"
    by (auto simp: i c Let_def)
  from weighted_nsti_value [OF a, of one_seq_table "''s2''"] w(1)
  have "cell w ''s2'' ''weighted_NSTI'' = NaN"
    by (auto simp: i c Let_def)
  then show ?thesis using a w i by auto
qed

subsection \<open>The table assembled from the per-sample results\<close>

lemma collect_map_Inr:
  "collect (map f xs) = Inr ys \<Longrightarrow>
   ys = map (\<lambda>x. projr (f x)) xs \<and> (\<forall>x\<in>set xs. f x = Inr (projr (f x)))"
proof (induction xs arbitrary: ys)
  case Nil
  then show ?case by simp
next
  case (Cons x xs)
  then show ?case by (cases "f x") (auto split: sum.splits)
qed

lemma first_pos_nth: "c \<in> set xs \<Longrightarrow> first_pos c xs < length xs \<and> xs ! first_pos c xs = c"
  by (induction xs) auto

lemma assembled_frame:
  assumes sf: "sample_funcs_of t F rare strat proc = Inr sf"
    and pc: "pd_concat sf = Inr df"
  shows "columns (set_columns (drop_zero_rows df) (columns t)) = columns t"
    and "\<And>s r k. s \<in> set (columns t) \<Longrightarrow> func_by_seq_abun (col t s) F rare strat = Inr r \<Longrightarrow>
           cell (set_columns (drop_zero_rows df) (columns t)) k s = s_value r k"
    and "\<exists>c r. c \<in> set (columns t) \<and> func_by_seq_abun (col t c) F rare strat = Inr r \<and>
           index (set_columns (drop_zero_rows df) (columns t)) =
             filter (\<lambda>k. \<not> (\<forall>s\<in>set (columns t).
                              cell (set_columns (drop_zero_rows df) (columns t)) k s = Fin 0))
               (s_index r)"
proof -
  let ?f = "\<lambda>s. func_by_seq_abun (col t s) F rare strat"
  let ?g = "\<lambda>s. projr (?f s)"
  let ?cols = "columns t"
  let ?out = "set_columns (drop_zero_rows df) ?cols"
  from sf have c: "collect (map ?f ?cols) = Inr sf"
    by (simp add: sample_funcs_of_collect)
  from collect_map_Inr [OF c] have sfm: "sf = map ?g ?cols"
    and ok: "\<And>s. s \<in> set ?cols \<Longrightarrow> ?f s = Inr (?g s)" by simp_all
  from pc obtain r0 rest where sf0: "sf = r0 # rest"
    by (cases sf) (simp_all add: pd_concat_def)
  with sfm obtain c0 cs where cols: "?cols = c0 # cs" and r0: "r0 = ?g c0"
    by (cases ?cols) auto
  from pc sf0 have df: "df = \<lparr>index = s_index r0, columns = [0..<length sf],
                                cell = (\<lambda>r j. s_value (sf ! j) r)\<rparr>"
    by (simp add: pd_concat_def)
  have len: "length sf = length ?cols" by (simp add: sfm)
  show "columns ?out = ?cols" by (simp add: set_columns_def)
  have cell_out: "cell ?out k s = s_value (?g s) k" if "s \<in> set ?cols" for k s
  proof -
    from first_pos_nth [OF that] have p: "first_pos s ?cols < length ?cols"
      and e: "?cols ! first_pos s ?cols = s" by simp_all
    have "sf ! first_pos s ?cols = ?g s" using p e by (simp add: sfm)
    then show ?thesis using that p
      by (simp add: set_columns_def drop_zero_rows_def df len)
  qed
  show "cell ?out k s = s_value r k"
    if "s \<in> set ?cols" and "?f s = Inr r" for s r k
    using cell_out [OF that(1)] that(2) by simp
  have zero: "list_all (\<lambda>c. cell df k c = Fin 0) (columns df) =
              (\<forall>s\<in>set ?cols. cell ?out k s = Fin 0)" for k
  proof -
    have "list_all (\<lambda>c. cell df k c = Fin 0) (columns df) =
            (\<forall>j<length ?cols. s_value (?g (?cols ! j)) k = Fin 0)"
      by (auto simp: df list_all_iff len sfm)
    also have "\<dots> = (\<forall>s\<in>set ?cols. s_value (?g s) k = Fin 0)"
      by (metis in_set_conv_nth)
    also have "\<dots> = (\<forall>s\<in>set ?cols. cell ?out k s = Fin 0)"
      using cell_out by simp
    finally show ?thesis .
  qed
  have "index ?out = filter (\<lambda>k. \<not> (\<forall>s\<in>set ?cols. cell ?out k s = Fin 0)) (s_index r0)"
    unfolding zero [symmetric] by (simp add: set_columns_def drop_zero_rows_def df)
  moreover have "c0 \<in> set ?cols" "?f c0 = Inr r0"
    using cols r0 ok [of c0] by simp_all
  ultimately show "\<exists>c r. c \<in> set ?cols \<and> ?f c = Inr r \<and>
      index ?out = filter (\<lambda>k. \<not> (\<forall>s\<in>set ?cols. cell ?out k s = Fin 0)) (s_index r)"
    by blast
qed


lemma funcs_by_sample_Inr:
  assumes "funcs_by_sample row_total t F strat proc min_reads min_samples = Inr (so, u)"
  obtains rare sf df where
    "rare_seqs_of row_total t strat min_reads min_samples = Inr rare"
    "sample_funcs_of t F rare strat proc = Inr sf"
    "pd_concat sf = Inr df"
    "strat \<Longrightarrow> so = Some (set_columns (drop_zero_rows df) (columns t)) \<and>
               pivot_table (set_columns (drop_zero_rows df) (columns t)) = Inr u"
    "\<not> strat \<Longrightarrow> so = None \<and> u = set_columns (drop_zero_rows df) (columns t)"
proof -
  from assms obtain rare where r: "rare_seqs_of row_total t strat min_reads min_samples = Inr rare"
    unfolding funcs_by_sample_def Let_def
    by (cases "rare_seqs_of row_total t strat min_reads min_samples") simp_all
  from assms r obtain sf where s: "sample_funcs_of t F rare strat proc = Inr sf"
    unfolding funcs_by_sample_def Let_def
    by (cases "sample_funcs_of t F rare strat proc") simp_all
  from assms r s obtain df where d: "pd_concat sf = Inr df"
    unfolding funcs_by_sample_def Let_def
    by (cases "pd_concat sf") simp_all
  from assms r s d have
    e: "(if strat then
           (case pivot_table (set_columns (drop_zero_rows df) (columns t)) of
              Inl e \<Rightarrow> Inl e
            | Inr v \<Rightarrow> Inr (Some (set_columns (drop_zero_rows df) (columns t)), v))
         else Inr (None, set_columns (drop_zero_rows df) (columns t))) = Inr (so, u)"
    unfolding funcs_by_sample_def Let_def by simp
  have "so = Some (set_columns (drop_zero_rows df) (columns t)) \<and>
        pivot_table (set_columns (drop_zero_rows df) (columns t)) = Inr u" if strat
    using e that
    by (cases "pivot_table (set_columns (drop_zero_rows df) (columns t))") simp_all
  moreover have "so = None \<and> u = set_columns (drop_zero_rows df) (columns t)" if "\<not> strat"
    using e that by simp
  ultimately show ?thesis using that r s d by blast
qed

lemma columns_mul_index [simp]: "columns (mul_index F sc) = columns F"
  by (simp add: mul_index_def)

lemma index_mul_index [simp]: "index (mul_index F sc) = align_union (index F) (s_index sc)"
  by (simp add: mul_index_def)

lemma func_by_seq_abun_unstrat:
  "func_by_seq_abun sc F [] False =
     Inr \<lparr>s_index = map FuncId (columns F),
          s_value = (\<lambda>k. case k of FuncId f \<Rightarrow> col_sum (mul_index F sc) f
                                   | FuncSeq f q \<Rightarrow> NaN)\<rparr>"
  by (simp add: func_by_seq_abun_def collapse_rare_def)

lemma col_sum_mul_index_fin:
  assumes idx: "index t = index F"
    and ft: "\<And>q. q \<in> set (index t) \<Longrightarrow> is_fin (cell t q s)"
    and fF: "\<And>q. q \<in> set (index F) \<Longrightarrow> is_fin (cell F q f)"
  shows "col_sum (mul_index F (col t s)) f =
           Fin (\<Sum>q\<leftarrow>index t. val (cell t q s) * val (cell F q f))"
proof -
  have "col_sum (mul_index F (col t s)) f =
          nansum (map (\<lambda>q. if q \<in> set (index F) then fmul (cell F q f) (cell t q s) else NaN)
                    (index F))"
    by (simp add: col_sum_def mul_index_def col_def align_union_def idx cong: if_cong)
  also have "\<dots> = nansum (map (\<lambda>q. Fin (val (cell t q s) * val (cell F q f))) (index F))"
    by (rule arg_cong [where f = nansum], rule map_cong)
       (simp_all add: fmul_fin ft fF idx mult.commute)
  also have "\<dots> = Fin (\<Sum>q\<leftarrow>index F. val (cell t q s) * val (cell F q f))"
    by (subst nansum_map_val) simp_all
  finally show ?thesis by (simp add: idx)
qed

subsection \<open>The stratified table\<close>

lemma rare_seqs_of_subset:
  assumes "rare_seqs_of row_total t strat min_reads min_samples = Inr rare"
  shows "set rare \<subseteq> set (index t)" and "distinct rare"
    and "rare \<noteq> [] \<Longrightarrow> ''RARE'' \<notin> set (index t)"
  using assms
  by (auto simp: rare_seqs_of_def id_rare_seqs_def low_freq_seq_def few_samples_seq_def
           split: if_splits)

lemma collapse_rare_Inr:
  assumes "collapse_rare d rare = Inr d'"
  shows "columns d' = columns d"
    and "q \<in> set (index d') \<Longrightarrow> q \<in> set (index d) - set rare \<or> (rare \<noteq> [] \<and> q = ''RARE'')"
    and "cell d' q f = (if rare \<noteq> [] \<and> q = ''RARE''
                        then nansum (map (\<lambda>q. cell d q f) rare) else cell d q f)"
    and "rare \<noteq> [] \<Longrightarrow> set rare \<subseteq> set (index d)"
proof -
  show "columns d' = columns d"
    using assms by (auto simp: collapse_rare_def Let_def split: if_splits)
  show "q \<in> set (index d) - set rare \<or> (rare \<noteq> [] \<and> q = ''RARE'')" if "q \<in> set (index d')"
    using assms that by (auto simp: collapse_rare_def Let_def split: if_splits)
  show "cell d' q f = (if rare \<noteq> [] \<and> q = ''RARE''
                        then nansum (map (\<lambda>q. cell d q f) rare) else cell d q f)"
    using assms by (auto simp: collapse_rare_def Let_def split: if_splits)
  show "set rare \<subseteq> set (index d)" if "rare \<noteq> []"
    using assms that by (auto simp: collapse_rare_def Let_def split: if_splits)
qed

lemma func_by_seq_abun_strat:
  assumes "func_by_seq_abun sc F rare True = Inr r"
  shows "k \<in> set (s_index r) \<Longrightarrow>
           \<exists>f q. k = FuncSeq f q \<and> f \<in> set (columns F) \<and> f \<noteq> ''sequence'' \<and>
                 (q \<in> set (align_union (index F) (s_index sc)) - set rare \<or>
                  (rare \<noteq> [] \<and> q = ''RARE''))"
    and "s_value r (FuncSeq f q) =
           (if rare \<noteq> [] \<and> q = ''RARE''
            then nansum (map (\<lambda>q. cell (mul_index F sc) q f) rare)
            else cell (mul_index F sc) q f)"
    and "rare \<noteq> [] \<Longrightarrow> set rare \<subseteq> set (align_union (index F) (s_index sc))"
proof -
  from assms obtain d' where d': "collapse_rare (mul_index F sc) rare = Inr d'"
    and r: "r = \<lparr>s_index = concat (map (\<lambda>f. map (\<lambda>q. FuncSeq f q) (index d'))
                                   (filter (\<lambda>f. f \<noteq> ''sequence'') (columns d'))),
                 s_value = (\<lambda>k. case k of FuncSeq f q \<Rightarrow> cell d' q f | FuncId f \<Rightarrow> NaN)\<rparr>"
    unfolding func_by_seq_abun_def
    by (cases "collapse_rare (mul_index F sc) rare") simp_all
  note cr = collapse_rare_Inr [OF d']
  show "\<exists>f q. k = FuncSeq f q \<and> f \<in> set (columns F) \<and> f \<noteq> ''sequence'' \<and>
                 (q \<in> set (align_union (index F) (s_index sc)) - set rare \<or>
                  (rare \<noteq> [] \<and> q = ''RARE''))" if "k \<in> set (s_index r)"
  proof -
    from that obtain f q where "k = FuncSeq f q" "f \<in> set (columns d')" "f \<noteq> ''sequence''"
      "q \<in> set (index d')"
      by (auto simp: r)
    with cr(1) cr(2) [of q] show ?thesis by auto
  qed
  show "s_value r (FuncSeq f q) =
           (if rare \<noteq> [] \<and> q = ''RARE''
            then nansum (map (\<lambda>q. cell (mul_index F sc) q f) rare)
            else cell (mul_index F sc) q f)"
    using cr(3) [of q f] by (simp add: r)
  show "set rare \<subseteq> set (align_union (index F) (s_index sc))" if "rare \<noteq> []"
    using cr(4) [OF that] by simp
qed

lemma func_by_seq_abun_index:
  assumes "s_index sc = s_index sc'"
    and "func_by_seq_abun sc F rare strat = Inr r"
    and "func_by_seq_abun sc' F rare strat = Inr r'"
  shows "s_index r = s_index r'"
proof -
  have i: "index (mul_index F sc) = index (mul_index F sc')"
    and c: "columns (mul_index F sc) = columns (mul_index F sc')"
    using assms(1) by simp_all
  from assms(2) obtain d where d: "collapse_rare (mul_index F sc) rare = Inr d"
    unfolding func_by_seq_abun_def
    by (cases "collapse_rare (mul_index F sc) rare") simp_all
  from assms(3) obtain d' where d': "collapse_rare (mul_index F sc') rare = Inr d'"
    unfolding func_by_seq_abun_def
    by (cases "collapse_rare (mul_index F sc') rare") simp_all
  from d d' i c have "index d = index d' \<and> columns d = columns d'"
    by (auto simp: collapse_rare_def Let_def split: if_splits)
  with assms(2,3) d d' show ?thesis
    by (auto simp: func_by_seq_abun_def split: if_splits)
qed

lemma mul_index_cell_fin:
  assumes "index t = index F" and "q \<in> set (index F)"
    and "is_fin (cell t q s)" and "is_fin (cell F q f)"
  shows "cell (mul_index F (col t s)) q f = Fin (val (cell t q s) * val (cell F q f))"
  using assms by (simp add: mul_index_def col_def fmul_fin mult.commute)

lemma strat_series_fin:
  assumes idx: "index t = index F"
    and ft: "\<And>q. q \<in> set (index t) \<Longrightarrow> is_fin (cell t q s)"
    and fF: "\<And>q f. q \<in> set (index F) \<Longrightarrow> f \<in> set (columns F) \<Longrightarrow> is_fin (cell F q f)"
    and sub: "set rare \<subseteq> set (index t)"
    and r: "func_by_seq_abun (col t s) F rare True = Inr r"
    and k: "k \<in> set (s_index r)"
  shows "is_fin (s_value r k)"
proof -
  have au: "align_union (index F) (s_index (col t s)) = index F"
    by (simp add: align_union_def col_def idx)
  from func_by_seq_abun_strat(1) [OF r k] obtain f q where
    kq: "k = FuncSeq f q" and f: "f \<in> set (columns F)"
    and q: "q \<in> set (index F) - set rare \<or> (rare \<noteq> [] \<and> q = ''RARE'')"
    unfolding au by blast
  have cellfin: "cell (mul_index F (col t s)) p f = Fin (val (cell t p s) * val (cell F p f))"
    if "p \<in> set (index F)" for p
    by (rule mul_index_cell_fin) (use that idx ft fF f in simp_all)
  show ?thesis
  proof (cases "rare \<noteq> [] \<and> q = ''RARE''")
    case True
    have "nansum (map (\<lambda>p. cell (mul_index F (col t s)) p f) rare) =
            Fin (\<Sum>p\<leftarrow>rare. val (cell (mul_index F (col t s)) p f))"
      by (rule nansum_map_val) (use sub idx cellfin in auto)
    then show ?thesis
      using True by (simp add: kq func_by_seq_abun_strat(2) [OF r])
  next
    case False
    with q have "q \<in> set (index F)" by auto
    from cellfin [OF this] False show ?thesis
      by (auto simp: kq func_by_seq_abun_strat(2) [OF r])
  qed
qed

lemma set_functions_of: "set (functions_of idx) = {f. \<exists>q. FuncSeq f q \<in> set idx}"
  by (auto simp: functions_of_def split: rowkey.splits)

lemma set_group_rows: "set (group_rows idx f) = {k \<in> set idx. \<exists>q. k = FuncSeq f q}"
proof -
  have "(case k of FuncSeq g q \<Rightarrow> g = f | FuncId g \<Rightarrow> False) = (\<exists>q. k = FuncSeq f q)" for k
    by (cases k) auto
  then show ?thesis by (simp add: group_rows_def)
qed

lemma pivot_table_Inr:
  assumes "pivot_table df = Inr u"
  shows "set (index u) \<subseteq> FuncId ` set (functions_of (index df))"
    and "set (columns u) \<subseteq> set (columns df)"
    and "cell u (FuncId f) s = nansum (map (\<lambda>k. cell df k s) (group_rows (index df) f))"
  using assms by (auto simp: pivot_table_def Let_def group_sum_def split: if_splits)

lemma pivot_table_sets:
  assumes pv: "pivot_table df = Inr u"
  shows "set (index u) =
           {FuncId f |f. f \<in> set (functions_of (index df)) \<and>
              (columns df = [] \<or> (\<exists>s\<in>set (columns df). group_sum df f s \<noteq> NaN))}"
    and "set (columns u) =
           {s \<in> set (columns df). \<exists>f. FuncId f \<in> set (index u) \<and> group_sum df f s \<noteq> NaN}"
proof -
  let ?groups = "sort (remdups (functions_of (index df)))"
  let ?samples = "sort (columns df)"
  let ?rows = "if ?samples = [] then ?groups
               else filter (\<lambda>f. \<not> list_all (\<lambda>s. group_sum df f s = NaN) ?samples) ?groups"
  let ?cols = "filter (\<lambda>s. \<not> list_all (\<lambda>f. group_sum df f s = NaN) ?rows) ?samples"
  from pv have u: "index u = map FuncId ?rows" "columns u = ?cols"
    by (auto simp: pivot_table_def Let_def split: if_splits)
  have e: "(?samples = []) = (columns df = [])"
    using set_sort [of "\<lambda>x. x" "columns df"] by (metis set_empty)
  have rows: "set ?rows = {f \<in> set (functions_of (index df)).
                 columns df = [] \<or> (\<exists>s\<in>set (columns df). group_sum df f s \<noteq> NaN)}"
    unfolding e by (auto simp: list_all_iff)
  show i: "set (index u) =
           {FuncId f |f. f \<in> set (functions_of (index df)) \<and>
              (columns df = [] \<or> (\<exists>s\<in>set (columns df). group_sum df f s \<noteq> NaN))}"
    unfolding u(1) set_map rows by blast
  have m: "(FuncId f \<in> set (index u)) = (f \<in> set ?rows)" for f
    unfolding u(1) by auto
  show "set (columns u) =
           {s \<in> set (columns df). \<exists>f. FuncId f \<in> set (index u) \<and> group_sum df f s \<noteq> NaN}"
    unfolding u(2) m by (auto simp: list_all_iff)
qed

lemma pivot_table_no_nan:
  assumes pv: "pivot_table df = Inr u"
    and nn: "\<And>f s. f \<in> set (functions_of (index df)) \<Longrightarrow> s \<in> set (columns df) \<Longrightarrow>
               group_sum df f s \<noteq> NaN"
  shows "index u = map FuncId (sort (remdups (functions_of (index df))))"
    and "columns u = (if functions_of (index df) = [] then [] else sort (columns df))"
proof -
  let ?groups = "sort (remdups (functions_of (index df)))"
  let ?samples = "sort (columns df)"
  let ?rows = "if ?samples = [] then ?groups
               else filter (\<lambda>f. \<not> list_all (\<lambda>s. group_sum df f s = NaN) ?samples) ?groups"
  let ?cols = "filter (\<lambda>s. \<not> list_all (\<lambda>f. group_sum df f s = NaN) ?rows) ?samples"
  from pv have u: "index u = map FuncId ?rows" "columns u = ?cols"
    by (auto simp: pivot_table_def Let_def split: if_splits)
  have rows: "?rows = ?groups"
  proof (cases "?samples = []")
    case True
    then show ?thesis by simp
  next
    case False
    then obtain s where s: "s \<in> set ?samples" by (cases ?samples) auto
    have "\<not> list_all (\<lambda>s. group_sum df f s = NaN) ?samples" if "f \<in> set ?groups" for f
      using nn [of f s] that s by (auto simp: list_all_iff)
    then have "filter (\<lambda>f. \<not> list_all (\<lambda>s. group_sum df f s = NaN) ?samples) ?groups = ?groups"
      by (simp add: filter_id_conv)
    with False show ?thesis by simp
  qed
  show "index u = map FuncId ?groups"
    using u(1) rows by simp
  show "columns u = (if functions_of (index df) = [] then [] else ?samples)"
  proof (cases "functions_of (index df) = []")
    case True
    then have "?rows = []" using rows by simp
    then have "?cols = []" by simp
    with True u(2) show ?thesis by simp
  next
    case False
    then obtain f fs where "functions_of (index df) = f # fs"
      by (cases "functions_of (index df)") auto
    then have f: "f \<in> set ?groups" by simp
    have "\<not> list_all (\<lambda>f. group_sum df f s = NaN) ?groups" if "s \<in> set ?samples" for s
      using nn [of f s] that f by (auto simp: list_all_iff)
    then have "filter (\<lambda>s. \<not> list_all (\<lambda>f. group_sum df f s = NaN) ?groups) ?samples = ?samples"
      by (simp add: filter_id_conv)
    with False u(2) rows show ?thesis by simp
  qed
qed

lemma stratified_cells_fin:
  assumes fs: "funcs_by_sample row_total t F True proc min_reads min_samples
                 = Inr (Some strat, unstrat)"
    and idx: "index t = index F"
    and ft: "\<And>q c. q \<in> set (index t) \<Longrightarrow> c \<in> set (columns t) \<Longrightarrow> is_fin (cell t q c)"
    and fF: "\<And>q g. q \<in> set (index F) \<Longrightarrow> g \<in> set (columns F) \<Longrightarrow> is_fin (cell F q g)"
    and s: "s \<in> set (columns t)" and k: "k \<in> set (index strat)"
  shows "is_fin (cell strat k s)" and "\<exists>f q. k = FuncSeq f q"
proof -
  from fs obtain rare sf df where
    r: "rare_seqs_of row_total t True min_reads min_samples = Inr rare"
    and sf: "sample_funcs_of t F rare True proc = Inr sf"
    and df: "pd_concat sf = Inr df"
    and st: "strat = set_columns (drop_zero_rows df) (columns t)"
    by (rule funcs_by_sample_Inr) simp
  note af = assembled_frame [OF sf df, folded st]
  from af(3) obtain c0 r0 where r0: "func_by_seq_abun (col t c0) F rare True = Inr r0"
    and i0: "set (index strat) \<subseteq> set (s_index r0)"
    by auto
  from sf have "collect (map (\<lambda>s. func_by_seq_abun (col t s) F rare True) (columns t)) = Inr sf"
    by (simp add: sample_funcs_of_collect)
  from collect_map_Inr [OF this] s obtain rs where
    rs: "func_by_seq_abun (col t s) F rare True = Inr rs" by blast
  have same: "s_index r0 = s_index rs"
    by (rule func_by_seq_abun_index [OF _ r0 rs]) (simp add: col_def)
  from k i0 same have ks: "k \<in> set (s_index rs)" by auto
  have "is_fin (s_value rs k)"
    by (rule strat_series_fin [OF idx _ _ _ rs ks])
       (use ft fF s rare_seqs_of_subset(1) [OF r] in auto)
  then show "is_fin (cell strat k s)" using af(2) [OF s rs] by simp
  from func_by_seq_abun_strat(1) [OF rs ks] show "\<exists>f q. k = FuncSeq f q" by blast
qed

lemma stratified_pivot_shape:
  assumes fs: "funcs_by_sample row_total t F True proc min_reads min_samples
                 = Inr (Some strat, unstrat)"
    and idx: "index t = index F"
    and ft: "\<And>q c. q \<in> set (index t) \<Longrightarrow> c \<in> set (columns t) \<Longrightarrow> is_fin (cell t q c)"
    and fF: "\<And>q g. q \<in> set (index F) \<Longrightarrow> g \<in> set (columns F) \<Longrightarrow> is_fin (cell F q g)"
  shows "index unstrat = map FuncId (sort (remdups (functions_of (index strat))))"
    and "columns unstrat = (if index strat = [] then [] else sort (columns t))"
    and "columns strat = columns t"
    and "pivot_table strat = Inr unstrat"
    and "(index unstrat = []) = (index strat = [])"
proof -
  from fs obtain rare sf df where
    sf: "sample_funcs_of t F rare True proc = Inr sf"
    and df: "pd_concat sf = Inr df"
    and st: "strat = set_columns (drop_zero_rows df) (columns t)"
    and pv: "pivot_table strat = Inr unstrat"
    by (rule funcs_by_sample_Inr) simp
  note af = assembled_frame [OF sf df, folded st]
  show cs: "columns strat = columns t" by (rule af(1))
  show "pivot_table strat = Inr unstrat" by (rule pv)
  have nn: "group_sum strat f s \<noteq> NaN"
    if "f \<in> set (functions_of (index strat))" "s \<in> set (columns strat)" for f s
  proof -
    have "nansum (map (\<lambda>k. cell strat k s) (group_rows (index strat) f)) =
            Fin (\<Sum>k\<leftarrow>group_rows (index strat) f. val (cell strat k s))"
      by (rule nansum_map_val)
         (use stratified_cells_fin(1) [OF fs idx ft fF] that(2) cs in \<open>auto simp: set_group_rows\<close>)
    then show ?thesis by (simp add: group_sum_def)
  qed
  note pn = pivot_table_no_nan [OF pv nn]
  show "index unstrat = map FuncId (sort (remdups (functions_of (index strat))))"
    by (rule pn(1)) 
  have "(functions_of (index strat) = []) = (index strat = [])"
  proof
    assume e: "functions_of (index strat) = []"
    show "index strat = []"
    proof (cases "index strat")
      case Nil
      then show ?thesis .
    next
      case (Cons k ks)
      then have k: "k \<in> set (index strat)" by simp
      from fs obtain c where "c \<in> set (columns t)"
        using af(3) by blast
      from stratified_cells_fin(2) [OF fs idx ft fF this k] obtain f q where "k = FuncSeq f q"
        by blast
      with k have "f \<in> set (functions_of (index strat))" by (auto simp: set_functions_of)
      with e show ?thesis by simp
    qed
  next
    assume "index strat = []"
    then show "functions_of (index strat) = []" by (simp add: functions_of_def)
  qed
  then have e: "(functions_of (index strat) = []) = (index strat = [])" .
  with pn(2) cs show "columns unstrat = (if index strat = [] then [] else sort (columns t))"
    by simp
  have "set (index unstrat) = set (map FuncId (sort (remdups (functions_of (index strat)))))"
    by (rule arg_cong [where f = set]) (rule pn(1))
  then have "set (index unstrat) = FuncId ` set (functions_of (index strat))"
    by simp
  then have "(set (index unstrat) = {}) = (set (functions_of (index strat)) = {})"
    by simp
  then have "(index unstrat = []) = (functions_of (index strat) = [])"
    by simp
  with e show "(index unstrat = []) = (index strat = [])" by simp
qed

text \<open>
  C2. When the aggregator returns a stratified and an unstratified table, the value of
  the unstratified table for a function f and a sample s is the sum that pandas takes
  over the rows (f, q) of the stratified table, the row of RARE among them. The
  pivot drops what is entirely missing: a function with a row in the stratified table
  has a row in the unstratified table unless the table has a sample and the sum of
  the function is NaN in every sample, and a sample is a column of the unstratified
  table when the sum of one of its rows is not NaN there. For tables over the same
  sequences with finite cells every cell of the stratified table is finite, the value
  is exactly the sum of those cells, every function with a row in the stratified
  table has one in the unstratified table, and the samples are the same unless the
  stratified table has no row: then the unstratified table has neither rows nor
  columns.
\<close>

theorem stratified_sums_to_unstratified:
  "funcs_by_sample row_total t F True proc min_reads min_samples
     = Inr (Some strat, unstrat) \<longrightarrow>
     set (group_rows (index strat) f) = {k \<in> set (index strat). \<exists>q. k = FuncSeq f q} \<and>
     cell unstrat (FuncId f) s =
       nansum (map (\<lambda>k. cell strat k s) (group_rows (index strat) f)) \<and>
     set (index unstrat) =
       {FuncId g |g. (\<exists>q. FuncSeq g q \<in> set (index strat)) \<and>
          (columns strat = [] \<or>
           (\<exists>c\<in>set (columns strat).
              nansum (map (\<lambda>k. cell strat k c) (group_rows (index strat) g)) \<noteq> NaN))} \<and>
     set (columns unstrat) =
       {c \<in> set (columns strat). \<exists>g. FuncId g \<in> set (index unstrat) \<and>
          nansum (map (\<lambda>k. cell strat k c) (group_rows (index strat) g)) \<noteq> NaN} \<and>
     (index t = index F \<and>
      (\<forall>q\<in>set (index t). \<forall>s\<in>set (columns t). is_fin (cell t q s)) \<and>
      (\<forall>q\<in>set (index F). \<forall>f\<in>set (columns F). is_fin (cell F q f)) \<longrightarrow>
        set (index unstrat) = {FuncId g |g. \<exists>q. FuncSeq g q \<in> set (index strat)} \<and>
        (index strat \<noteq> [] \<longrightarrow> set (columns unstrat) = set (columns strat)) \<and>
        (index strat = [] \<longrightarrow> index unstrat = [] \<and> columns unstrat = []) \<and>
        (s \<in> set (columns strat) \<longrightarrow>
           (\<forall>k\<in>set (index strat). is_fin (cell strat k s)) \<and>
           cell unstrat (FuncId f) s =
             Fin (\<Sum>k\<leftarrow>group_rows (index strat) f. val (cell strat k s))))"
proof (intro impI)
  assume fs: "funcs_by_sample row_total t F True proc min_reads min_samples
                = Inr (Some strat, unstrat)"
  from fs obtain rare sf df where
    sf: "sample_funcs_of t F rare True proc = Inr sf"
    and df: "pd_concat sf = Inr df"
    and st: "strat = set_columns (drop_zero_rows df) (columns t)"
    and pv: "pivot_table strat = Inr unstrat"
    by (rule funcs_by_sample_Inr) simp
  note pt = pivot_table_Inr [OF pv]
  note ps = pivot_table_sets [OF pv, unfolded group_sum_def set_functions_of]
  have rows: "set (index unstrat) =
       {FuncId g |g. (\<exists>q. FuncSeq g q \<in> set (index strat)) \<and>
          (columns strat = [] \<or>
           (\<exists>c\<in>set (columns strat).
              nansum (map (\<lambda>k. cell strat k c) (group_rows (index strat) g)) \<noteq> NaN))}"
    using ps(1) by simp
  have cols: "set (columns unstrat) =
       {c \<in> set (columns strat). \<exists>g. FuncId g \<in> set (index unstrat) \<and>
          nansum (map (\<lambda>k. cell strat k c) (group_rows (index strat) g)) \<noteq> NaN}"
    by (rule ps(2))
  have val: "cell unstrat (FuncId f) s =
       nansum (map (\<lambda>k. cell strat k s) (group_rows (index strat) f))"
    by (rule pt(3))
  have fin: "set (index unstrat) = {FuncId g |g. \<exists>q. FuncSeq g q \<in> set (index strat)} \<and>
        (index strat \<noteq> [] \<longrightarrow> set (columns unstrat) = set (columns strat)) \<and>
        (index strat = [] \<longrightarrow> index unstrat = [] \<and> columns unstrat = []) \<and>
        (s \<in> set (columns strat) \<longrightarrow>
           (\<forall>k\<in>set (index strat). is_fin (cell strat k s)) \<and>
           cell unstrat (FuncId f) s =
             Fin (\<Sum>k\<leftarrow>group_rows (index strat) f. val (cell strat k s)))"
    if h: "index t = index F \<and>
      (\<forall>q\<in>set (index t). \<forall>s\<in>set (columns t). is_fin (cell t q s)) \<and>
      (\<forall>q\<in>set (index F). \<forall>f\<in>set (columns F). is_fin (cell F q f))"
  proof -
    from h have idx: "index t = index F"
      and ft: "\<And>q c. q \<in> set (index t) \<Longrightarrow> c \<in> set (columns t) \<Longrightarrow> is_fin (cell t q c)"
      and fF: "\<And>q g. q \<in> set (index F) \<Longrightarrow> g \<in> set (columns F) \<Longrightarrow> is_fin (cell F q g)"
      by simp_all
    note sh = stratified_pivot_shape [OF fs idx ft fF]
    have a: "set (index unstrat) = {FuncId g |g. \<exists>q. FuncSeq g q \<in> set (index strat)}"
      by (auto simp: sh(1) set_functions_of)
    have b: "index strat \<noteq> [] \<longrightarrow> set (columns unstrat) = set (columns strat)"
      using sh(2,3) by simp
    have b': "index strat = [] \<longrightarrow> index unstrat = [] \<and> columns unstrat = []"
      using sh(2,5) by simp
    have c: "(\<forall>k\<in>set (index strat). is_fin (cell strat k s)) \<and>
           cell unstrat (FuncId f) s =
             Fin (\<Sum>k\<leftarrow>group_rows (index strat) f. val (cell strat k s))"
      if "s \<in> set (columns strat)"
    proof -
      from that sh(3) have s: "s \<in> set (columns t)" by simp
      have cf: "is_fin (cell strat k s)" if "k \<in> set (index strat)" for k
        by (rule stratified_cells_fin(1) [OF fs idx ft fF s that])
      have "nansum (map (\<lambda>k. cell strat k s) (group_rows (index strat) f)) =
              Fin (\<Sum>k\<leftarrow>group_rows (index strat) f. val (cell strat k s))"
        by (rule nansum_map_val) (simp add: set_group_rows cf)
      with val cf show ?thesis by simp
    qed
    from a b b' c show ?thesis by blast
  qed
  from cols rows val fin set_group_rows [of "index strat" f]
  show "set (group_rows (index strat) f) = {k \<in> set (index strat). \<exists>q. k = FuncSeq f q} \<and>
     cell unstrat (FuncId f) s =
       nansum (map (\<lambda>k. cell strat k s) (group_rows (index strat) f)) \<and>
     set (index unstrat) =
       {FuncId g |g. (\<exists>q. FuncSeq g q \<in> set (index strat)) \<and>
          (columns strat = [] \<or>
           (\<exists>c\<in>set (columns strat).
              nansum (map (\<lambda>k. cell strat k c) (group_rows (index strat) g)) \<noteq> NaN))} \<and>
     set (columns unstrat) =
       {c \<in> set (columns strat). \<exists>g. FuncId g \<in> set (index unstrat) \<and>
          nansum (map (\<lambda>k. cell strat k c) (group_rows (index strat) g)) \<noteq> NaN} \<and>
     (index t = index F \<and>
      (\<forall>q\<in>set (index t). \<forall>s\<in>set (columns t). is_fin (cell t q s)) \<and>
      (\<forall>q\<in>set (index F). \<forall>f\<in>set (columns F). is_fin (cell F q f)) \<longrightarrow>
        set (index unstrat) = {FuncId g |g. \<exists>q. FuncSeq g q \<in> set (index strat)} \<and>
        (index strat \<noteq> [] \<longrightarrow> set (columns unstrat) = set (columns strat)) \<and>
        (index strat = [] \<longrightarrow> index unstrat = [] \<and> columns unstrat = []) \<and>
        (s \<in> set (columns strat) \<longrightarrow>
           (\<forall>k\<in>set (index strat). is_fin (cell strat k s)) \<and>
           cell unstrat (FuncId f) s =
             Fin (\<Sum>k\<leftarrow>group_rows (index strat) f. val (cell strat k s))))"
    by (intro conjI impI) blast+
qed

lemma as_dict_two_by_two:
  assumes "as_dict df = [(k1, [(c1, v11), (c2, v12)]), (k2, [(c1, v21), (c2, v22)])]"
  shows "index df = [k1, k2]" and "columns df = [c1, c2]"
    and "cell df k1 c1 = v11" and "cell df k1 c2 = v12"
    and "cell df k2 c1 = v21" and "cell df k2 c2 = v22"
  using assms by (auto simp: as_dict_def)

theorem stratified_sums_to_unstratified_witness:
  "index abundance_table = index function_table \<and>
   (\<exists>strat unstrat.
      funcs_by_sample nansum abundance_table function_table True 1 6 1 = Inr (Some strat, unstrat) \<and>
      as_dict strat = [(FuncSeq ''f1'' ''seqA'', [(''s1'', Fin 10), (''s2'', Fin 0)]),
                       (FuncSeq ''f1'' ''RARE'', [(''s1'', Fin 0), (''s2'', Fin 10)])] \<and>
      set (index unstrat) = {FuncId ''f1''} \<and>
      set (columns unstrat) = {''s1'', ''s2''} \<and>
      cell unstrat (FuncId ''f1'') ''s1'' = Fin (10 + 0) \<and>
      cell unstrat (FuncId ''f1'') ''s2'' = Fin (0 + 10)) \<and>
   (\<exists>strat unstrat.
      funcs_by_sample nansum zero_table function_table True 1 1 1 = Inr (Some strat, unstrat) \<and>
      index strat = [] \<and> columns strat = [''s1'', ''s2''] \<and>
      index unstrat = [] \<and> columns unstrat = [])"
proof -
  have i: "index abundance_table = [''seqA'', ''seqB'']"
      "index function_table = [''seqA'', ''seqB'']"
      "columns abundance_table = [''s1'', ''s2'']" "columns function_table = [''f1'']"
      "index zero_table = [''seqA'', ''seqB'']" "columns zero_table = [''s1'', ''s2'']"
    by (simp_all add: abundance_table_def function_table_def zero_table_def from_rows_def)
  have c: "cell abundance_table ''seqA'' ''s1'' = Fin 10"
      "cell abundance_table ''seqA'' ''s2'' = Fin 0"
      "cell abundance_table ''seqB'' ''s1'' = Fin 0"
      "cell abundance_table ''seqB'' ''s2'' = Fin 5"
      "cell function_table ''seqA'' ''f1'' = Fin 1"
      "cell function_table ''seqB'' ''f1'' = Fin 2"
      "cell zero_table ''seqA'' ''s1'' = Fin 0"
      "cell zero_table ''seqA'' ''s2'' = Fin 0"
      "cell zero_table ''seqB'' ''s1'' = Fin 0"
      "cell zero_table ''seqB'' ''s2'' = Fin 0"
    by (simp_all add: abundance_table_def function_table_def zero_table_def from_rows_def)
  have e: "map_sum id (\<lambda>(s, u). map_option as_dict s)
             (funcs_by_sample nansum abundance_table function_table True 1 6 1) =
           Inr (Some [(FuncSeq ''f1'' ''seqA'', [(''s1'', Fin 10), (''s2'', Fin 0)]),
                      (FuncSeq ''f1'' ''RARE'', [(''s1'', Fin 0), (''s2'', Fin 10)])])"
    by code_simp
  then obtain strat unstrat where
    r: "funcs_by_sample nansum abundance_table function_table True 1 6 1 = Inr (Some strat, unstrat)"
    and d: "as_dict strat = [(FuncSeq ''f1'' ''seqA'', [(''s1'', Fin 10), (''s2'', Fin 0)]),
                             (FuncSeq ''f1'' ''RARE'', [(''s1'', Fin 0), (''s2'', Fin 10)])]"
    by (cases "funcs_by_sample nansum abundance_table function_table True 1 6 1") auto
  note sd = as_dict_two_by_two [OF d]
  have hyp: "index abundance_table = index function_table \<and>
      (\<forall>q\<in>set (index abundance_table). \<forall>s\<in>set (columns abundance_table).
         is_fin (cell abundance_table q s)) \<and>
      (\<forall>q\<in>set (index function_table). \<forall>f\<in>set (columns function_table).
         is_fin (cell function_table q f))"
    by (simp add: i c)
  note T1 = stratified_sums_to_unstratified
         [where row_total = nansum and t = abundance_table and F = function_table
            and proc = 1 and min_reads = 6 and min_samples = 1
            and strat = strat and unstrat = unstrat and f = "''f1''" and s = "''s1''",
          THEN mp, OF r]
  note T2 = stratified_sums_to_unstratified
         [where row_total = nansum and t = abundance_table and F = function_table
            and proc = 1 and min_reads = 6 and min_samples = 1
            and strat = strat and unstrat = unstrat and f = "''f1''" and s = "''s2''",
          THEN mp, OF r]
  note F1 = T1 [THEN conjunct2, THEN conjunct2, THEN conjunct2, THEN conjunct2, THEN mp, OF hyp]
  note F2 = T2 [THEN conjunct2, THEN conjunct2, THEN conjunct2, THEN conjunct2, THEN mp, OF hyp]
  from F1 have rows: "set (index unstrat) = {FuncId ''f1''}"
    by (auto simp: sd)
  from F1 have cols: "set (columns unstrat) = {''s1'', ''s2''}"
    by (auto simp: sd)
  from F1 have v1: "cell unstrat (FuncId ''f1'') ''s1'' = Fin (10 + 0)"
    by (simp add: sd group_rows_def)
  from F2 have v2: "cell unstrat (FuncId ''f1'') ''s2'' = Fin (0 + 10)"
    by (simp add: sd group_rows_def)
  have first: "\<exists>strat unstrat.
      funcs_by_sample nansum abundance_table function_table True 1 6 1 = Inr (Some strat, unstrat) \<and>
      as_dict strat = [(FuncSeq ''f1'' ''seqA'', [(''s1'', Fin 10), (''s2'', Fin 0)]),
                       (FuncSeq ''f1'' ''RARE'', [(''s1'', Fin 0), (''s2'', Fin 10)])] \<and>
      set (index unstrat) = {FuncId ''f1''} \<and>
      set (columns unstrat) = {''s1'', ''s2''} \<and>
      cell unstrat (FuncId ''f1'') ''s1'' = Fin (10 + 0) \<and>
      cell unstrat (FuncId ''f1'') ''s2'' = Fin (0 + 10)"
    using r d rows cols v1 v2 by (intro conjI exI)
  have "map_sum id (\<lambda>(s, u). map_option (\<lambda>d. (index d, columns d)) s)
             (funcs_by_sample nansum zero_table function_table True 1 1 1) =
           Inr (Some ([], [''s1'', ''s2'']))"
    by code_simp
  then obtain st0 u0 where
    r0: "funcs_by_sample nansum zero_table function_table True 1 1 1 = Inr (Some st0, u0)"
    and d0: "index st0 = []" "columns st0 = [''s1'', ''s2'']"
    by (cases "funcs_by_sample nansum zero_table function_table True 1 1 1") auto
  have hyp0: "index zero_table = index function_table \<and>
      (\<forall>q\<in>set (index zero_table). \<forall>s\<in>set (columns zero_table). is_fin (cell zero_table q s)) \<and>
      (\<forall>q\<in>set (index function_table). \<forall>f\<in>set (columns function_table).
         is_fin (cell function_table q f))"
    by (simp add: i c)
  note T0 = stratified_sums_to_unstratified
         [where row_total = nansum and t = zero_table and F = function_table
            and proc = 1 and min_reads = 1 and min_samples = 1
            and strat = st0 and unstrat = u0 and f = "''f1''" and s = "''s1''",
          THEN mp, OF r0, THEN conjunct2, THEN conjunct2, THEN conjunct2, THEN conjunct2,
          THEN mp, OF hyp0]
  from T0 d0 have e0: "index u0 = []" "columns u0 = []"
    by simp_all
  have second: "\<exists>strat unstrat.
      funcs_by_sample nansum zero_table function_table True 1 1 1 = Inr (Some strat, unstrat) \<and>
      index strat = [] \<and> columns strat = [''s1'', ''s2''] \<and>
      index unstrat = [] \<and> columns unstrat = []"
    using r0 d0 e0 by (intro conjI exI)
  have "index abundance_table = index function_table" by (simp add: i)
  with first second show ?thesis by (intro conjI)
qed

subsection \<open>The confidence filter and the aligned tables\<close>

lemma filter_absent: "x \<notin> set xs \<Longrightarrow> filter (\<lambda>c. c \<noteq> x) xs = xs"
  by (induction xs) auto

lemma nsti_filter_index:
  assumes "nsti_filter max_nsti pred nv = (nv', pred')" and "q \<in> set (index pred')"
  shows "q \<in> set (index pred)"
    and "''metadata_NSTI'' \<in> set (columns pred) \<Longrightarrow> fle (cell pred q ''metadata_NSTI'') max_nsti"
  using assms by (auto simp: nsti_filter_def Let_def split: if_splits)

lemma nsti_filter_val:
  assumes "nsti_filter max_nsti pred nv = (nv', pred')"
    and "is_empty nv \<or> ''metadata_NSTI'' \<in> set (columns nv)"
  shows "is_empty nv' \<or> ''metadata_NSTI'' \<in> set (columns nv')"
  using assms by (auto simp: nsti_filter_def Let_def split: if_splits)

lemma three_df_index_overlap_sort_Inr:
  assumes "three_df_index_overlap_sort df1 df2 df3 = Inr (a, b, c)"
  shows "index a = index b" and "index b = index c" and "index a \<noteq> []"
    and "set (index a) = set (index df1) \<inter> set (index df2) \<inter> set (index df3)"
    and "columns a = columns df1" and "columns b = columns df2" and "columns c = columns df3"
    and "cell a = cell df1" and "cell b = cell df2" and "cell c = cell df3"
  using assms by (auto simp: three_df_index_overlap_sort_def Let_def split: if_splits)

lemma prepare_tables_Inr:
  assumes "prepare_tables counts pf pm max_nsti = Inr (counts', pf', pm', nv)"
  shows "index counts' = index pf'" and "index pf' = index pm'"
    and "q \<in> set (index counts') \<Longrightarrow> q \<in> set (index counts)"
    and "q \<in> set (index counts') \<Longrightarrow> ''metadata_NSTI'' \<in> set (columns pf) \<Longrightarrow>
           fle (cell pf q ''metadata_NSTI'') max_nsti"
    and "q \<in> set (index counts') \<Longrightarrow> ''metadata_NSTI'' \<in> set (columns pm) \<Longrightarrow>
           fle (cell pm q ''metadata_NSTI'') max_nsti"
    and "is_empty nv \<or> ''metadata_NSTI'' \<in> set (columns nv)"
    and "columns pm' = filter (\<lambda>c. c \<noteq> ''metadata_NSTI'') (columns pm)"
proof -
  obtain nv1 pf1 where f1: "nsti_filter max_nsti pf empty_frame = (nv1, pf1)"
    by (cases "nsti_filter max_nsti pf empty_frame") simp
  obtain nv2 pm1 where f2: "nsti_filter max_nsti pm nv1 = (nv2, pm1)"
    by (cases "nsti_filter max_nsti pm nv1") simp
  from assms f1 f2 have al: "three_df_index_overlap_sort counts pf1 pm1 = Inr (counts', pf', pm')"
    and nv: "nv = nv2"
    by (auto simp: prepare_tables_def split: sum.splits)
  note t = three_df_index_overlap_sort_Inr [OF al]
  show "index counts' = index pf'" by (rule t(1))
  show "index pf' = index pm'" by (rule t(2))
  show "q \<in> set (index counts)" if "q \<in> set (index counts')"
    using that t(4) by auto
  show "fle (cell pf q ''metadata_NSTI'') max_nsti"
    if "q \<in> set (index counts')" "''metadata_NSTI'' \<in> set (columns pf)"
  proof -
    from that(1) t(4) have "q \<in> set (index pf1)" by auto
    from nsti_filter_index(2) [OF f1 this that(2)] show ?thesis .
  qed
  show "fle (cell pm q ''metadata_NSTI'') max_nsti"
    if "q \<in> set (index counts')" "''metadata_NSTI'' \<in> set (columns pm)"
  proof -
    from that(1) t(4) have "q \<in> set (index pm1)" by auto
    from nsti_filter_index(2) [OF f2 this that(2)] show ?thesis .
  qed
  have "is_empty nv1 \<or> ''metadata_NSTI'' \<in> set (columns nv1)"
    by (rule nsti_filter_val [OF f1]) (simp add: is_empty_def empty_frame_def)
  from nsti_filter_val [OF f2 this] show "is_empty nv \<or> ''metadata_NSTI'' \<in> set (columns nv)"
    by (simp add: nv)
  show "columns pm' = filter (\<lambda>c. c \<noteq> ''metadata_NSTI'') (columns pm)"
    using f2 t(7) by (auto simp: nsti_filter_def Let_def filter_absent split: if_splits)
qed

lemma norm_by_marker_copies_Inr:
  assumes "norm_by_marker_copies counts marker d = Inr normed"
  shows "index normed = index counts" and "columns normed = columns counts"
  using assms by (auto simp: norm_by_marker_copies_def split: list.splits if_splits)

lemma run_metagenome_pipeline_Inr:
  assumes "run_metagenome_pipeline row_total counts pf pm max_nsti min_reads min_samples strat_out proc
             = Inr res"
  obtains counts' pf' pm' nv normed where
    "prepare_tables counts pf pm max_nsti = Inr (counts', pf', pm', nv)"
    "norm_by_marker_copies counts' pm' 2 = Inr normed"
    "funcs_by_sample row_total normed pf' strat_out proc min_reads min_samples = Inr res"
proof -
  from assms obtain counts' pf' pm' nv where
    p: "prepare_tables counts pf pm max_nsti = Inr (counts', pf', pm', nv)"
    unfolding run_metagenome_pipeline_def
    by (cases "prepare_tables counts pf pm max_nsti") auto
  from assms p obtain normed where n: "norm_by_marker_copies counts' pm' 2 = Inr normed"
    unfolding run_metagenome_pipeline_def
    by (cases "norm_by_marker_copies counts' pm' 2") auto
  from assms p n have "funcs_by_sample row_total normed pf' strat_out proc min_reads min_samples = Inr res"
    unfolding run_metagenome_pipeline_def
    by (simp split: sum.splits if_splits)
  with p n show ?thesis using that by blast
qed


text \<open>
  C5. The filter keeps a row exactly when its score is \<open>\<le>\<close> the threshold: for a table
  with the column \<^verbatim>\<open>metadata_NSTI\<close> the rows that stay, and the rows of the confidence
  vector, are those with \<open>score \<le> max_nsti\<close>, in their order. Every sequence of the
  aligned tables, of the normalised table and (but for the row RARE) of the stratified
  table that the pipeline returns has a score \<open>\<le> max_nsti\<close> in each table that carries
  scores, so a sequence with a higher score is in none of them.
\<close>

theorem confidence_filter_inclusive:
  "(''metadata_NSTI'' \<in> set (columns pred) \<and> nsti_filter max_nsti pred nv = (nv', pred') \<longrightarrow>
      index pred' = filter (\<lambda>q. fle (cell pred q ''metadata_NSTI'') max_nsti) (index pred) \<and>
      index nv' = index pred' \<and>
      (q \<in> set (index pred') \<longleftrightarrow>
         q \<in> set (index pred) \<and> fle (cell pred q ''metadata_NSTI'') max_nsti) \<and>
      (cell pred q ''metadata_NSTI'' = Fin a \<and> max_nsti = Fin b \<longrightarrow>
         (q \<in> set (index pred') \<longleftrightarrow> q \<in> set (index pred) \<and> a \<le> b))) \<and>
   (prepare_tables counts pf pm max_nsti = Inr (counts', pf', pm', nsti_val) \<and>
    norm_by_marker_copies counts' pm' 2 = Inr normed \<and>
    q \<in> set (index counts') \<union> set (index pf') \<union> set (index pm') \<union> set (index normed) \<longrightarrow>
      (''metadata_NSTI'' \<in> set (columns pf) \<longrightarrow> fle (cell pf q ''metadata_NSTI'') max_nsti) \<and>
      (''metadata_NSTI'' \<in> set (columns pm) \<longrightarrow> fle (cell pm q ''metadata_NSTI'') max_nsti)) \<and>
   (run_metagenome_pipeline row_total counts pf pm max_nsti min_reads min_samples strat_out proc
        = Inr (Some strat, unstrat) \<and>
    FuncSeq f q \<in> set (index strat) \<and> q \<noteq> ''RARE'' \<longrightarrow>
      (''metadata_NSTI'' \<in> set (columns pf) \<longrightarrow> fle (cell pf q ''metadata_NSTI'') max_nsti) \<and>
      (''metadata_NSTI'' \<in> set (columns pm) \<longrightarrow> fle (cell pm q ''metadata_NSTI'') max_nsti))"
proof (intro conjI)
  show "''metadata_NSTI'' \<in> set (columns pred) \<and> nsti_filter max_nsti pred nv = (nv', pred') \<longrightarrow>
      index pred' = filter (\<lambda>q. fle (cell pred q ''metadata_NSTI'') max_nsti) (index pred) \<and>
      index nv' = index pred' \<and>
      (q \<in> set (index pred') \<longleftrightarrow>
         q \<in> set (index pred) \<and> fle (cell pred q ''metadata_NSTI'') max_nsti) \<and>
      (cell pred q ''metadata_NSTI'' = Fin a \<and> max_nsti = Fin b \<longrightarrow>
         (q \<in> set (index pred') \<longleftrightarrow> q \<in> set (index pred) \<and> a \<le> b))"
    by (auto simp: nsti_filter_def Let_def)
next
  show "prepare_tables counts pf pm max_nsti = Inr (counts', pf', pm', nsti_val) \<and>
    norm_by_marker_copies counts' pm' 2 = Inr normed \<and>
    q \<in> set (index counts') \<union> set (index pf') \<union> set (index pm') \<union> set (index normed) \<longrightarrow>
      (''metadata_NSTI'' \<in> set (columns pf) \<longrightarrow> fle (cell pf q ''metadata_NSTI'') max_nsti) \<and>
      (''metadata_NSTI'' \<in> set (columns pm) \<longrightarrow> fle (cell pm q ''metadata_NSTI'') max_nsti)"
  proof (intro impI)
    assume h: "prepare_tables counts pf pm max_nsti = Inr (counts', pf', pm', nsti_val) \<and>
      norm_by_marker_copies counts' pm' 2 = Inr normed \<and>
      q \<in> set (index counts') \<union> set (index pf') \<union> set (index pm') \<union> set (index normed)"
    then have p: "prepare_tables counts pf pm max_nsti = Inr (counts', pf', pm', nsti_val)"
      and n: "norm_by_marker_copies counts' pm' 2 = Inr normed" by simp_all
    note pt = prepare_tables_Inr [OF p]
    from h pt(1,2) norm_by_marker_copies_Inr(1) [OF n] have "q \<in> set (index counts')" by auto
    with pt(4,5) show "(''metadata_NSTI'' \<in> set (columns pf) \<longrightarrow>
           fle (cell pf q ''metadata_NSTI'') max_nsti) \<and>
      (''metadata_NSTI'' \<in> set (columns pm) \<longrightarrow> fle (cell pm q ''metadata_NSTI'') max_nsti)"
      by blast
  qed
next
  show "run_metagenome_pipeline row_total counts pf pm max_nsti min_reads min_samples strat_out proc
        = Inr (Some strat, unstrat) \<and>
    FuncSeq f q \<in> set (index strat) \<and> q \<noteq> ''RARE'' \<longrightarrow>
      (''metadata_NSTI'' \<in> set (columns pf) \<longrightarrow> fle (cell pf q ''metadata_NSTI'') max_nsti) \<and>
      (''metadata_NSTI'' \<in> set (columns pm) \<longrightarrow> fle (cell pm q ''metadata_NSTI'') max_nsti)"
  proof (intro impI)
    assume h: "run_metagenome_pipeline row_total counts pf pm max_nsti min_reads min_samples strat_out proc
        = Inr (Some strat, unstrat) \<and>
      FuncSeq f q \<in> set (index strat) \<and> q \<noteq> ''RARE''"
    then have run: "run_metagenome_pipeline row_total counts pf pm max_nsti min_reads min_samples
        strat_out proc = Inr (Some strat, unstrat)" by simp
    from run obtain counts' pf' pm' nv normed where
      p: "prepare_tables counts pf pm max_nsti = Inr (counts', pf', pm', nv)"
      and n: "norm_by_marker_copies counts' pm' 2 = Inr normed"
      and fs: "funcs_by_sample row_total normed pf' strat_out proc min_reads min_samples
                 = Inr (Some strat, unstrat)"
      by (rule run_metagenome_pipeline_Inr)
    have so: "strat_out = True" using funcs_by_sample_strat [OF fs] by simp
    from fs [unfolded so] obtain rare sf df where
      sf: "sample_funcs_of normed pf' rare True proc = Inr sf"
      and df: "pd_concat sf = Inr df"
      and st: "strat = set_columns (drop_zero_rows df) (columns normed)"
      by (rule funcs_by_sample_Inr) simp
    from assembled_frame(3) [OF sf df, folded st] obtain c0 r0 where
      r0: "func_by_seq_abun (col normed c0) pf' rare True = Inr r0"
      and idx: "set (index strat) \<subseteq> set (s_index r0)" by auto
    from h idx have "FuncSeq f q \<in> set (s_index r0)" by auto
    from func_by_seq_abun_strat(1) [OF r0 this] h
    have "q \<in> set (align_union (index pf') (s_index (col normed c0)))" by auto
    then have "q \<in> set (index pf') \<union> set (index normed)"
      by (simp add: set_align_union col_def)
    with prepare_tables_Inr(1) [OF p] norm_by_marker_copies_Inr(1) [OF n]
    have "q \<in> set (index counts')" by auto
    with prepare_tables_Inr(4,5) [OF p]
    show "(''metadata_NSTI'' \<in> set (columns pf) \<longrightarrow>
           fle (cell pf q ''metadata_NSTI'') max_nsti) \<and>
      (''metadata_NSTI'' \<in> set (columns pm) \<longrightarrow> fle (cell pm q ''metadata_NSTI'') max_nsti)"
      by blast
  qed
qed

theorem confidence_filter_inclusive_witness:
  "''metadata_NSTI'' \<in> set (columns scored_function_table) \<and>
   map (\<lambda>q. cell scored_function_table q ''metadata_NSTI'') (index scored_function_table)
     = [Fin (1 / 2), Fin 1, Fin (5 / 2)] \<and>
   index (snd (nsti_filter (Fin 2) scored_function_table empty_frame)) = [''seqA'', ''seqB''] \<and>
   index (fst (nsti_filter (Fin 2) scored_function_table empty_frame)) = [''seqA'', ''seqB''] \<and>
   ''seqC'' \<notin> set (index (snd (nsti_filter (Fin 2) scored_function_table empty_frame))) \<and>
   index (snd (nsti_filter (Fin 1) scored_function_table empty_frame)) = [''seqA'', ''seqB''] \<and>
   map_sum id (\<lambda>(s, u). (map_option as_dict s, as_dict u))
       (run_metagenome_pipeline nansum three_seq_table scored_function_table three_marker_table
          (Fin 2) 1 1 True 1) =
     Inr (Some [(FuncSeq ''f1'' ''seqA'', [(''s1'', Fin 5), (''s2'', Fin 0)]),
                (FuncSeq ''f1'' ''seqB'', [(''s1'', Fin 0), (''s2'', Fin 10)])],
          [(FuncId ''f1'', [(''s1'', Fin 5), (''s2'', Fin 10)])])"
proof -
  have a: "''metadata_NSTI'' \<in> set (columns scored_function_table)"
    by (simp add: scored_function_table_def from_rows_def)
  have b: "map (\<lambda>q. cell scored_function_table q ''metadata_NSTI'') (index scored_function_table)
     = [Fin (1 / 2), Fin 1, Fin (5 / 2)]"
    "index scored_function_table = [''seqA'', ''seqB'', ''seqC'']"
    by (simp_all add: scored_function_table_def from_rows_def)
  have c: "nsti_filter (Fin 2) scored_function_table empty_frame =
             (fst (nsti_filter (Fin 2) scored_function_table empty_frame),
              snd (nsti_filter (Fin 2) scored_function_table empty_frame))"
    by simp
  have d: "map_sum id (\<lambda>(s, u). (map_option as_dict s, as_dict u))
       (run_metagenome_pipeline nansum three_seq_table scored_function_table three_marker_table
          (Fin 2) 1 1 True 1) =
     Inr (Some [(FuncSeq ''f1'' ''seqA'', [(''s1'', Fin 5), (''s2'', Fin 0)]),
                (FuncSeq ''f1'' ''seqB'', [(''s1'', Fin 0), (''s2'', Fin 10)])],
          [(FuncId ''f1'', [(''s1'', Fin 5), (''s2'', Fin 10)])])"
    by code_simp
  from confidence_filter_inclusive
         [where pred = scored_function_table and max_nsti = "Fin 2" and nv = empty_frame
            and nv' = "fst (nsti_filter (Fin 2) scored_function_table empty_frame)"
            and pred' = "snd (nsti_filter (Fin 2) scored_function_table empty_frame)"
            and q = "''seqC''"]
    a b c
  have "index (snd (nsti_filter (Fin 2) scored_function_table empty_frame)) = [''seqA'', ''seqB'']
      \<and> index (fst (nsti_filter (Fin 2) scored_function_table empty_frame)) = [''seqA'', ''seqB'']"
    by simp
  moreover have
    "index (snd (nsti_filter (Fin 1) scored_function_table empty_frame)) = [''seqA'', ''seqB'']"
    by (simp add: nsti_filter_def scored_function_table_def from_rows_def Let_def)
  ultimately show ?thesis using a b d by simp
qed


subsection \<open>The reserved label\<close>

text \<open>
  C4. On a table with a sequence called RARE the classifier stops with the
  naming-conflict message before it looks at a threshold, and so does the aggregator
  whenever it calls the classifier (stratified output and a threshold other than 1),
  with any number of processes; the pipeline, once the aligned abundance table holds
  such a sequence and is normalised, ends with that message as well. No table is
  returned.
\<close>

theorem rare_label_guard:
  "''RARE'' \<in> set (index t) \<Longrightarrow>
   id_rare_seqs row_total t min_reads min_samples = Inl (SystemExit rare_message) \<and>
   (strat_out \<and> (min_reads \<noteq> 1 \<or> min_samples \<noteq> 1) \<longrightarrow>
      rare_seqs_of row_total t strat_out min_reads min_samples = Inl (SystemExit rare_message) \<and>
      funcs_by_sample row_total t F strat_out proc min_reads min_samples = Inl (SystemExit rare_message)) \<and>
   (strat_out \<and> (min_reads \<noteq> 1 \<or> min_samples \<noteq> 1) \<and>
    prepare_tables counts pf pm max_nsti = Inr (t, pf', pm', nsti_val) \<and>
    norm_by_marker_copies t pm' 2 = Inr normed \<longrightarrow>
      run_metagenome_pipeline row_total counts pf pm max_nsti min_reads min_samples strat_out proc
        = Inl (SystemExit rare_message))"
proof (intro conjI impI)
  assume r: "''RARE'' \<in> set (index t)"
  show "id_rare_seqs row_total t min_reads min_samples = Inl (SystemExit rare_message)"
    using r by (simp add: id_rare_seqs_def)
  have agg: "funcs_by_sample row_total u G strat_out proc min_reads min_samples
               = Inl (SystemExit rare_message)"
    if "''RARE'' \<in> set (index u)" "strat_out \<and> (min_reads \<noteq> 1 \<or> min_samples \<noteq> 1)" for u G
    using that by (simp add: id_rare_seqs_def rare_seqs_of_def funcs_by_sample_def)
  show "rare_seqs_of row_total t strat_out min_reads min_samples = Inl (SystemExit rare_message)"
    if "strat_out \<and> (min_reads \<noteq> 1 \<or> min_samples \<noteq> 1)"
    using r that by (simp add: id_rare_seqs_def rare_seqs_of_def)
  show "funcs_by_sample row_total t F strat_out proc min_reads min_samples = Inl (SystemExit rare_message)"
    if "strat_out \<and> (min_reads \<noteq> 1 \<or> min_samples \<noteq> 1)"
    using agg [OF r that] .
  show "run_metagenome_pipeline row_total counts pf pm max_nsti min_reads min_samples strat_out proc
        = Inl (SystemExit rare_message)"
    if h: "strat_out \<and> (min_reads \<noteq> 1 \<or> min_samples \<noteq> 1) \<and>
      prepare_tables counts pf pm max_nsti = Inr (t, pf', pm', nsti_val) \<and>
      norm_by_marker_copies t pm' 2 = Inr normed"
  proof -
    from h have p: "prepare_tables counts pf pm max_nsti = Inr (t, pf', pm', nsti_val)"
      and n: "norm_by_marker_copies t pm' 2 = Inr normed" by simp_all
    have "''RARE'' \<in> set (index normed)"
      using r norm_by_marker_copies_Inr(1) [OF n] by simp
    from agg [OF this] h
    have f: "funcs_by_sample row_total normed pf' strat_out proc min_reads min_samples
               = Inl (SystemExit rare_message)" by simp
    have w: "\<exists>w. (if \<not> is_empty nsti_val then calc_weighted_nsti normed nsti_val
                   else Inr empty_frame) = Inr w"
      using prepare_tables_Inr(6) [OF p] by (auto simp: calc_weighted_nsti_def)
    then obtain w where "(if \<not> is_empty nsti_val then calc_weighted_nsti normed nsti_val
                   else Inr empty_frame) = Inr w" ..
    then show ?thesis
      unfolding run_metagenome_pipeline_def by (simp add: p n f)
  qed
qed

theorem rare_label_guard_witness:
  "''RARE'' \<in> set (index named_rare_table) \<and>
   id_rare_seqs nansum named_rare_table 2 1 = Inl (SystemExit rare_message) \<and>
   funcs_by_sample nansum named_rare_table function_table True 1 2 1 = Inl (SystemExit rare_message) \<and>
   run_metagenome_pipeline nansum named_rare_table named_rare_function_table named_rare_marker_table
       (Fin 2) 2 1 True 1 = Inl (SystemExit rare_message)"
proof -
  have a: "''RARE'' \<in> set (index named_rare_table)"
    by (simp add: named_rare_table_def from_rows_def)
  have "map_sum id (\<lambda>r. ())
          (run_metagenome_pipeline nansum named_rare_table named_rare_function_table
             named_rare_marker_table (Fin 2) 2 1 True 1) = Inl (SystemExit rare_message)"
    by code_simp
  then have b: "run_metagenome_pipeline nansum named_rare_table named_rare_function_table
       named_rare_marker_table (Fin 2) 2 1 True 1 = Inl (SystemExit rare_message)"
    by (cases "run_metagenome_pipeline nansum named_rare_table named_rare_function_table
       named_rare_marker_table (Fin 2) 2 1 True 1") simp_all
  from a b rare_label_guard
         [OF a, where row_total = nansum and min_reads = 2 and min_samples = 1
            and strat_out = True and F = function_table and proc = 1]
  show ?thesis by simp
qed

subsection \<open>The values of the unstratified table\<close>

lemma sum_list_filter_zero:
  "(\<And>x. x \<in> set xs \<Longrightarrow> \<not> P x \<Longrightarrow> h x = (0::rat)) \<Longrightarrow>
   sum_list (map h (filter P xs)) = sum_list (map h xs)"
  by (induction xs) auto

lemma sum_list_split:
  "sum_list (map h (filter P xs)) + sum_list (map h (filter (\<lambda>x. \<not> P x) xs)) =
     (sum_list (map h xs) :: rat)"
  by (induction xs) auto

lemma sum_list_rare:
  assumes "distinct idx" and "distinct rare" and "set rare \<subseteq> set idx"
  shows "sum_list (map h rare) = (sum_list (map h (filter (\<lambda>q. q \<in> set rare) idx)) :: rat)"
proof -
  have "set (filter (\<lambda>q. q \<in> set rare) idx) = set rare" using assms(3) by auto
  moreover have "distinct (filter (\<lambda>q. q \<in> set rare) idx)" using assms(1) by simp
  ultimately show ?thesis
    using assms(2) by (simp add: sum_list_distinct_conv_sum_set)
qed

lemma group_rows_filter: "group_rows (filter P idx) f = filter P (group_rows idx f)"
  by (auto simp: group_rows_def intro: filter_cong)

lemma group_rows_append: "group_rows (xs @ ys) f = group_rows xs f @ group_rows ys f"
  by (simp add: group_rows_def)

lemma group_rows_map:
  "group_rows (map (FuncSeq g) qs) f = (if g = f then map (FuncSeq f) qs else [])"
  by (induction qs) (simp_all add: group_rows_def)

lemma group_rows_concat:
  "distinct fs \<Longrightarrow>
   group_rows (concat (map (\<lambda>g. map (FuncSeq g) qs) fs)) f =
     (if f \<in> set fs then map (FuncSeq f) qs else [])"
proof (induction fs)
  case Nil
  show ?case by (simp add: group_rows_def)
next
  case (Cons g fs)
  then show ?case
    by (auto simp: group_rows_append group_rows_map)
qed

lemma collapse_rare_index:
  assumes "collapse_rare d rare = Inr d'"
  shows "index d' =
           (if rare = [] then index d
            else if ''RARE'' \<in> set (filter (\<lambda>q. q \<notin> set rare) (index d))
                 then filter (\<lambda>q. q \<notin> set rare) (index d)
                 else filter (\<lambda>q. q \<notin> set rare) (index d) @ [''RARE''])"
  using assms by (auto simp: collapse_rare_def Let_def split: if_splits)

lemma func_by_seq_abun_strat_index:
  assumes r: "func_by_seq_abun (col t s) F rare True = Inr r"
    and idx: "index t = index F"
    and rare: "rare \<noteq> [] \<Longrightarrow> ''RARE'' \<notin> set (index t)"
  shows "s_index r =
           concat (map (\<lambda>f. map (FuncSeq f)
                          (if rare = [] then index F
                           else filter (\<lambda>q. q \<notin> set rare) (index F) @ [''RARE'']))
                     (filter (\<lambda>f. f \<noteq> ''sequence'') (columns F)))"
proof -
  from r obtain d' where d': "collapse_rare (mul_index F (col t s)) rare = Inr d'"
    and rr: "r = \<lparr>s_index = concat (map (\<lambda>f. map (\<lambda>q. FuncSeq f q) (index d'))
                                   (filter (\<lambda>f. f \<noteq> ''sequence'') (columns d'))),
                 s_value = (\<lambda>k. case k of FuncSeq f q \<Rightarrow> cell d' q f | FuncId f \<Rightarrow> NaN)\<rparr>"
    unfolding func_by_seq_abun_def
    by (cases "collapse_rare (mul_index F (col t s)) rare") simp_all
  have au: "align_union (index F) (s_index (col t s)) = index F"
    by (simp add: align_union_def col_def idx)
  have "index d' = (if rare = [] then index F
                    else filter (\<lambda>q. q \<notin> set rare) (index F) @ [''RARE''])"
    using collapse_rare_index [OF d'] rare idx by (auto simp: au)
  moreover have "columns d' = columns F"
    using collapse_rare_Inr(1) [OF d'] by simp
  ultimately show ?thesis by (simp add: rr)
qed

lemma stratified_mode_value:
  assumes idx: "index t = index F" and di: "distinct (index t)" and dc: "distinct (columns F)"
    and ft: "\<And>q c. q \<in> set (index t) \<Longrightarrow> c \<in> set (columns t) \<Longrightarrow> is_fin (cell t q c)"
    and fF: "\<And>q g. q \<in> set (index F) \<Longrightarrow> g \<in> set (columns F) \<Longrightarrow> is_fin (cell F q g)"
    and fs: "funcs_by_sample row_total t F True proc min_reads min_samples = Inr (Some strat, unstrat)"
    and f: "f \<in> set (columns F)" "f \<noteq> ''sequence''" and s: "s \<in> set (columns t)"
  shows "cell unstrat (FuncId f) s = Fin (\<Sum>q\<leftarrow>index t. val (cell t q s) * val (cell F q f))"
    and "FuncId f \<notin> set (index unstrat) \<Longrightarrow>
           (\<Sum>q\<leftarrow>index t. val (cell t q s) * val (cell F q f)) = 0"
proof -
  let ?a = "\<lambda>q. val (cell t q s) * val (cell F q f)"
  let ?funcs = "filter (\<lambda>f. f \<noteq> ''sequence'') (columns F)"
  let ?idx' = "if rare = [] then index F
               else filter (\<lambda>q. q \<notin> set rare) (index F) @ [''RARE'']"
  from fs obtain rare sf df where
    r: "rare_seqs_of row_total t True min_reads min_samples = Inr rare"
    and sf: "sample_funcs_of t F rare True proc = Inr sf"
    and df: "pd_concat sf = Inr df"
    and st: "strat = set_columns (drop_zero_rows df) (columns t)"
    and pv: "pivot_table strat = Inr unstrat"
    by (rule funcs_by_sample_Inr) simp
  let ?idx' = "if rare = [] then index F
               else filter (\<lambda>q. q \<notin> set rare) (index F) @ [''RARE'']"
  let ?nz = "\<lambda>k. \<not> (\<forall>c\<in>set (columns t). cell strat k c = Fin 0)"
  note af = assembled_frame [OF sf df, folded st]
  note pt = pivot_table_Inr [OF pv]
  note rs = rare_seqs_of_subset [OF r]
  from sf have "collect (map (\<lambda>s. func_by_seq_abun (col t s) F rare True) (columns t)) = Inr sf"
    by (simp add: sample_funcs_of_collect)
  from collect_map_Inr [OF this] s obtain r1 where
    r1: "func_by_seq_abun (col t s) F rare True = Inr r1" by blast
  have cell_s: "cell strat k s = s_value r1 k" for k
    by (rule af(2) [OF s r1])
  from af(3) obtain c0 r0 where r0: "func_by_seq_abun (col t c0) F rare True = Inr r0"
    and i0: "index strat = filter ?nz (s_index r0)" by blast
  have si: "s_index r0 = concat (map (\<lambda>f. map (FuncSeq f) ?idx') ?funcs)"
    by (rule func_by_seq_abun_strat_index [OF r0 idx rs(3)])
  have rows: "group_rows (index strat) f = filter ?nz (map (FuncSeq f) ?idx')"
    using f dc by (simp add: i0 si group_rows_filter group_rows_concat)
  have cellfin: "cell (mul_index F (col t s)) p f = Fin (?a p)" if "p \<in> set (index F)" for p
    by (rule mul_index_cell_fin) (use that idx ft fF f s in simp_all)
  have rare_sum: "nansum (map (\<lambda>p. cell (mul_index F (col t s)) p f) rare) =
                    Fin (\<Sum>p\<leftarrow>rare. ?a p)"
  proof -
    have "nansum (map (\<lambda>p. cell (mul_index F (col t s)) p f) rare) =
            Fin (\<Sum>p\<leftarrow>rare. val (cell (mul_index F (col t s)) p f))"
      by (rule nansum_map_val) (use rs(1) idx cellfin in auto)
    also have "(\<Sum>p\<leftarrow>rare. val (cell (mul_index F (col t s)) p f)) = (\<Sum>p\<leftarrow>rare. ?a p)"
      by (rule arg_cong [where f = sum_list], rule map_cong) (use rs(1) idx cellfin in auto)
    finally show ?thesis .
  qed
  have nr: "''RARE'' \<notin> set (index F)" if "rare \<noteq> []"
    using rs(3) [OF that] idx by simp
  have sv: "s_value r1 (FuncSeq f q) =
              (if rare \<noteq> [] \<and> q = ''RARE'' then Fin (\<Sum>p\<leftarrow>rare. ?a p) else Fin (?a q))"
    if "q \<in> set ?idx'" for q
  proof (cases "rare \<noteq> [] \<and> q = ''RARE''")
    case True
    then show ?thesis by (simp add: func_by_seq_abun_strat(2) [OF r1] rare_sum)
  next
    case False
    with that have "q \<in> set (index F)" by (auto split: if_splits)
    from cellfin [OF this] False show ?thesis
      by (auto simp: func_by_seq_abun_strat(2) [OF r1])
  qed
  have total: "(\<Sum>q\<leftarrow>?idx'. val (s_value r1 (FuncSeq f q))) = (\<Sum>q\<leftarrow>index t. ?a q)"
  proof (cases "rare = []")
    case True
    have "(\<Sum>q\<leftarrow>index F. val (s_value r1 (FuncSeq f q))) = (\<Sum>q\<leftarrow>index F. ?a q)"
      by (rule arg_cong [where f = sum_list], rule map_cong) (use sv True in simp_all)
    then show ?thesis using True idx by simp
  next
    case False
    let ?kept = "filter (\<lambda>q. q \<notin> set rare) (index F)"
    have k: "(\<Sum>q\<leftarrow>?kept. val (s_value r1 (FuncSeq f q))) = (\<Sum>q\<leftarrow>?kept. ?a q)"
      by (rule arg_cong [where f = sum_list], rule map_cong)
         (use sv False nr in auto)
    have "val (s_value r1 (FuncSeq f ''RARE'')) = (\<Sum>p\<leftarrow>rare. ?a p)"
      using sv [of "''RARE''"] False by simp
    also have "\<dots> = (\<Sum>q\<leftarrow>filter (\<lambda>q. q \<in> set rare) (index F). ?a q)"
      by (rule sum_list_rare) (use di idx rs in simp_all)
    finally have "(\<Sum>q\<leftarrow>?idx'. val (s_value r1 (FuncSeq f q))) =
        (\<Sum>q\<leftarrow>filter (\<lambda>q. q \<in> set rare) (index F). ?a q) + (\<Sum>q\<leftarrow>?kept. ?a q)"
      using False k by simp
    also have "\<dots> = (\<Sum>q\<leftarrow>index F. ?a q)"
      by (rule sum_list_split)
    finally show ?thesis by (simp add: idx)
  qed
  have sv_fin: "is_fin (s_value r1 (FuncSeq f q))" if "q \<in> set ?idx'" for q
    by (simp add: sv [OF that])
  have fin_rows: "k \<in> set (group_rows (index strat) f) \<Longrightarrow>
                    cell strat k s = NaN \<or> is_fin (cell strat k s)" for k
    using sv_fin by (auto simp: rows cell_s)
  have "cell unstrat (FuncId f) s =
          Fin (\<Sum>k\<leftarrow>group_rows (index strat) f. val (cell strat k s))"
    unfolding pt(3) by (rule nansum_map_val) (rule fin_rows)
  also have "(\<Sum>k\<leftarrow>group_rows (index strat) f. val (cell strat k s)) =
               (\<Sum>k\<leftarrow>map (FuncSeq f) ?idx'. val (cell strat k s))"
    unfolding rows by (rule sum_list_filter_zero) (use s in auto)
  also have "\<dots> = (\<Sum>q\<leftarrow>?idx'. val (s_value r1 (FuncSeq f q)))"
    by (simp add: cell_s comp_def)
  also note total
  finally show v: "cell unstrat (FuncId f) s = Fin (\<Sum>q\<leftarrow>index t. ?a q)" .
  show "(\<Sum>q\<leftarrow>index t. ?a q) = 0" if "FuncId f \<notin> set (index unstrat)"
  proof -
    from that have "\<And>q. FuncSeq f q \<notin> set (index strat)"
      by (auto simp: stratified_pivot_shape(1) [OF fs idx ft fF] set_functions_of)
    then have "set (group_rows (index strat) f) = {}"
      by (auto simp: set_group_rows)
    then have "group_rows (index strat) f = []"
      by simp
    then have "cell unstrat (FuncId f) s = Fin 0"
      by (simp add: pt(3) nansum_def)
    with v show ?thesis by simp
  qed
qed


lemma stratified_mode_rows:
  assumes "funcs_by_sample row_total t F True proc min_reads min_samples = Inr (Some strat, unstrat)"
  shows "set (index unstrat) \<subseteq> FuncId ` set (columns F)"
proof -
  from assms obtain rare sf df where
    sf: "sample_funcs_of t F rare True proc = Inr sf"
    and df: "pd_concat sf = Inr df"
    and st: "strat = set_columns (drop_zero_rows df) (columns t)"
    and pv: "pivot_table strat = Inr unstrat"
    by (rule funcs_by_sample_Inr) simp
  note af = assembled_frame [OF sf df, folded st]
  note pt = pivot_table_Inr [OF pv]
  from af(3) obtain c0 r0 where r0: "func_by_seq_abun (col t c0) F rare True = Inr r0"
    and i0: "set (index strat) \<subseteq> set (s_index r0)" by auto
  have "g \<in> set (columns F)" if "FuncSeq g q \<in> set (index strat)" for g q
    using func_by_seq_abun_strat(1) [OF r0, of "FuncSeq g q"] that i0 by auto
  then show "set (index unstrat) \<subseteq> FuncId ` set (columns F)"
    using pt(1) by (auto simp: set_functions_of)
qed

lemma unstratified_mode_value:
  assumes idx: "index t = index F"
    and ft: "\<And>q c. q \<in> set (index t) \<Longrightarrow> c \<in> set (columns t) \<Longrightarrow> is_fin (cell t q c)"
    and fF: "\<And>q g. q \<in> set (index F) \<Longrightarrow> g \<in> set (columns F) \<Longrightarrow> is_fin (cell F q g)"
    and fs: "funcs_by_sample row_total t F False proc min_reads min_samples = Inr (strat, unstrat)"
  shows "columns unstrat = columns t"
    and "set (index unstrat) \<subseteq> FuncId ` set (columns F)"
    and "f \<in> set (columns F) \<Longrightarrow> s \<in> set (columns t) \<Longrightarrow>
           cell unstrat (FuncId f) s = Fin (\<Sum>q\<leftarrow>index t. val (cell t q s) * val (cell F q f))"
    and "f \<in> set (columns F) \<Longrightarrow> s \<in> set (columns t) \<Longrightarrow>
           FuncId f \<notin> set (index unstrat) \<Longrightarrow>
           (\<Sum>q\<leftarrow>index t. val (cell t q s) * val (cell F q f)) = 0"
proof -
  let ?v = "\<lambda>f s. \<Sum>q\<leftarrow>index t. val (cell t q s) * val (cell F q f)"
  from fs obtain rare sf df where
    r: "rare_seqs_of row_total t False min_reads min_samples = Inr rare"
    and sf: "sample_funcs_of t F rare False proc = Inr sf"
    and df: "pd_concat sf = Inr df"
    and u: "unstrat = set_columns (drop_zero_rows df) (columns t)"
    by (rule funcs_by_sample_Inr) simp
  from r have rare: "rare = []" by (simp add: rare_seqs_of_def)
  note af = assembled_frame [OF sf df, folded u, unfolded rare func_by_seq_abun_unstrat]
  show "columns unstrat = columns t" by (rule af(1))
  have cellv: "cell unstrat (FuncId g) c = Fin (?v g c)"
    if "g \<in> set (columns F)" "c \<in> set (columns t)" for g c
  proof -
    have "cell unstrat (FuncId g) c = col_sum (mul_index F (col t c)) g"
      using af(2) [OF that(2) refl, of "FuncId g"] by simp
    also have "\<dots> = Fin (?v g c)"
      by (rule col_sum_mul_index_fin) (use idx ft fF that in simp_all)
    finally show ?thesis .
  qed
  from af(3) have i: "index unstrat =
      filter (\<lambda>k. \<not> (\<forall>s\<in>set (columns t). cell unstrat k s = Fin 0)) (map FuncId (columns F))"
    by auto
  show "set (index unstrat) \<subseteq> FuncId ` set (columns F)"
    by (auto simp: i)
  show "cell unstrat (FuncId f) s = Fin (?v f s)"
    if "f \<in> set (columns F)" "s \<in> set (columns t)"
    using cellv [OF that] .
  show "?v f s = 0"
    if "f \<in> set (columns F)" "s \<in> set (columns t)" "FuncId f \<notin> set (index unstrat)"
  proof -
    from that(1,3) have "\<forall>s\<in>set (columns t). cell unstrat (FuncId f) s = Fin 0"
      by (auto simp: i)
    with that(2) cellv [OF that(1,2)] show ?thesis by simp
  qed
qed

text \<open>
  C1. For tables over the same sequences with finite cells, the unstratified table
  that the aggregator returns has the samples of the abundance table as columns and
  functions of the copy-number table as rows; the value of a function f that has a
  row, in a sample s, is the sum over the sequences q of the abundance of q in s times
  the copy number of f in q, and a function without a row is one for which that sum is
  0 in every sample. This holds without stratification, and with it (for distinct
  sequences and functions; a function column called \<^verbatim>\<open>sequence\<close> is overwritten by the
  stratified branch of the source). The pipeline hands the aggregator the normalised
  table; on the example of the specification the normalised table and the
  unstratified table are as stated there.
\<close>

theorem unstratified_value:
  "(index t = index F \<and>
    (strat_out \<longrightarrow> distinct (index t) \<and> distinct (columns F)) \<and>
    (\<forall>q\<in>set (index t). \<forall>s\<in>set (columns t). is_fin (cell t q s)) \<and>
    (\<forall>q\<in>set (index F). \<forall>f\<in>set (columns F). is_fin (cell F q f)) \<and>
    funcs_by_sample row_total t F strat_out proc min_reads min_samples = Inr (strat, unstrat) \<longrightarrow>
      (\<not> strat_out \<longrightarrow> columns unstrat = columns t) \<and>
      (strat_out \<and> index unstrat \<noteq> [] \<longrightarrow> set (columns unstrat) = set (columns t)) \<and>
      (strat_out \<and> index unstrat = [] \<longrightarrow> columns unstrat = []) \<and>
      set (index unstrat) \<subseteq> FuncId ` set (columns F) \<and>
      (\<forall>f\<in>set (columns F). \<forall>s\<in>set (columns t).
         (strat_out \<longrightarrow> f \<noteq> ''sequence'') \<longrightarrow>
         (if FuncId f \<in> set (index unstrat)
          then cell unstrat (FuncId f) s = Fin (\<Sum>q\<leftarrow>index t. val (cell t q s) * val (cell F q f))
          else (\<Sum>q\<leftarrow>index t. val (cell t q s) * val (cell F q f)) = 0))) \<and>
   map_sum id as_dict (norm_by_marker_copies abundance_table marker_table 2) =
     Inr [(''seqA'', [(''s1'', Fin 5), (''s2'', Fin 0)]),
          (''seqB'', [(''s1'', Fin 0), (''s2'', Fin 5)])] \<and>
   map_sum id (\<lambda>(c, f, m, n). map_sum id as_dict (norm_by_marker_copies c m 2))
       (prepare_tables abundance_table function_table marker_table (Fin 2)) =
     Inr (Inr [(''seqA'', [(''s1'', Fin 5), (''s2'', Fin 0)]),
               (''seqB'', [(''s1'', Fin 0), (''s2'', Fin 5)])]) \<and>
   map_sum id (\<lambda>(s, u). (map_option as_dict s, as_dict u))
       (run_metagenome_pipeline nansum abundance_table function_table marker_table (Fin 2) 1 1 False 1) =
     Inr (None, [(FuncId ''f1'', [(''s1'', Fin 5), (''s2'', Fin 10)])])"
proof -
  let ?v = "\<lambda>f s. \<Sum>q\<leftarrow>index t. val (cell t q s) * val (cell F q f)"
  have main: "(\<not> strat_out \<longrightarrow> columns unstrat = columns t) \<and>
      (strat_out \<and> index unstrat \<noteq> [] \<longrightarrow> set (columns unstrat) = set (columns t)) \<and>
      (strat_out \<and> index unstrat = [] \<longrightarrow> columns unstrat = []) \<and>
      set (index unstrat) \<subseteq> FuncId ` set (columns F) \<and>
      (\<forall>f\<in>set (columns F). \<forall>s\<in>set (columns t).
         (strat_out \<longrightarrow> f \<noteq> ''sequence'') \<longrightarrow>
         (if FuncId f \<in> set (index unstrat)
          then cell unstrat (FuncId f) s = Fin (?v f s) else ?v f s = 0))"
    if h: "index t = index F \<and>
      (strat_out \<longrightarrow> distinct (index t) \<and> distinct (columns F)) \<and>
      (\<forall>q\<in>set (index t). \<forall>s\<in>set (columns t). is_fin (cell t q s)) \<and>
      (\<forall>q\<in>set (index F). \<forall>f\<in>set (columns F). is_fin (cell F q f)) \<and>
      funcs_by_sample row_total t F strat_out proc min_reads min_samples = Inr (strat, unstrat)"
  proof -
    from h have idx: "index t = index F"
      and ft: "\<And>q c. q \<in> set (index t) \<Longrightarrow> c \<in> set (columns t) \<Longrightarrow> is_fin (cell t q c)"
      and fF: "\<And>q g. q \<in> set (index F) \<Longrightarrow> g \<in> set (columns F) \<Longrightarrow> is_fin (cell F q g)"
      and fs: "funcs_by_sample row_total t F strat_out proc min_reads min_samples
                 = Inr (strat, unstrat)"
      by simp_all
    show ?thesis
    proof (cases strat_out)
      case False
      with fs have fs': "funcs_by_sample row_total t F False proc min_reads min_samples
                           = Inr (strat, unstrat)"
        by simp
      note u = unstratified_mode_value [OF idx ft fF fs']
      show ?thesis using False u(1,2) u(3,4) by auto
    next
      case True
      with funcs_by_sample_strat [OF fs] obtain st where st: "strat = Some st" by auto
      from fs True st
      have fs': "funcs_by_sample row_total t F True proc min_reads min_samples
                   = Inr (Some st, unstrat)"
        by simp
      from h True have di: "distinct (index t)" and dc: "distinct (columns F)" by auto
      note rows = stratified_mode_rows [OF fs']
      note sh = stratified_pivot_shape [OF fs' idx ft fF]
      have cols: "index unstrat \<noteq> [] \<longrightarrow> set (columns unstrat) = set (columns t)"
        "index unstrat = [] \<longrightarrow> columns unstrat = []"
        using sh(2,5) by simp_all
      have "if FuncId f \<in> set (index unstrat)
            then cell unstrat (FuncId f) s = Fin (?v f s) else ?v f s = 0"
        if "f \<in> set (columns F)" "s \<in> set (columns t)" "f \<noteq> ''sequence''" for f s
        using stratified_mode_value [OF idx di dc ft fF fs' that(1,3,2)] by simp
      then have "\<forall>f\<in>set (columns F). \<forall>s\<in>set (columns t).
           (strat_out \<longrightarrow> f \<noteq> ''sequence'') \<longrightarrow>
           (if FuncId f \<in> set (index unstrat)
            then cell unstrat (FuncId f) s = Fin (?v f s) else ?v f s = 0)"
        using True by blast
      with rows cols True show ?thesis by blast
    qed
  qed
  have n1: "map_sum id as_dict (norm_by_marker_copies abundance_table marker_table 2) =
     Inr [(''seqA'', [(''s1'', Fin 5), (''s2'', Fin 0)]),
          (''seqB'', [(''s1'', Fin 0), (''s2'', Fin 5)])]"
    by code_simp
  have n2: "map_sum id (\<lambda>(c, f, m, n). map_sum id as_dict (norm_by_marker_copies c m 2))
       (prepare_tables abundance_table function_table marker_table (Fin 2)) =
     Inr (Inr [(''seqA'', [(''s1'', Fin 5), (''s2'', Fin 0)]),
               (''seqB'', [(''s1'', Fin 0), (''s2'', Fin 5)])])"
    by code_simp
  have n3: "map_sum id (\<lambda>(s, u). (map_option as_dict s, as_dict u))
       (run_metagenome_pipeline nansum abundance_table function_table marker_table (Fin 2) 1 1 False 1) =
     Inr (None, [(FuncId ''f1'', [(''s1'', Fin 5), (''s2'', Fin 10)])])"
    by code_simp
  from main have m: "index t = index F \<and>
      (strat_out \<longrightarrow> distinct (index t) \<and> distinct (columns F)) \<and>
      (\<forall>q\<in>set (index t). \<forall>s\<in>set (columns t). is_fin (cell t q s)) \<and>
      (\<forall>q\<in>set (index F). \<forall>f\<in>set (columns F). is_fin (cell F q f)) \<and>
      funcs_by_sample row_total t F strat_out proc min_reads min_samples = Inr (strat, unstrat) \<longrightarrow>
      (\<not> strat_out \<longrightarrow> columns unstrat = columns t) \<and>
      (strat_out \<and> index unstrat \<noteq> [] \<longrightarrow> set (columns unstrat) = set (columns t)) \<and>
      (strat_out \<and> index unstrat = [] \<longrightarrow> columns unstrat = []) \<and>
      set (index unstrat) \<subseteq> FuncId ` set (columns F) \<and>
      (\<forall>f\<in>set (columns F). \<forall>s\<in>set (columns t).
         (strat_out \<longrightarrow> f \<noteq> ''sequence'') \<longrightarrow>
         (if FuncId f \<in> set (index unstrat)
          then cell unstrat (FuncId f) s = Fin (?v f s) else ?v f s = 0))"
    by (rule impI)
  show ?thesis
    by (rule conjI [OF m conjI [OF n1 conjI [OF n2 n3]]])
qed

theorem unstratified_value_witness:
  "index normalised_table = index function_table \<and>
   distinct (index normalised_table) \<and> distinct (columns function_table) \<and>
   (\<exists>u. funcs_by_sample nansum normalised_table function_table False 1 1 1 = Inr (None, u) \<and>
        FuncId ''f1'' \<in> set (index u) \<and>
        cell u (FuncId ''f1'') ''s1'' = Fin 5 \<and>
        cell u (FuncId ''f1'') ''s2'' = Fin 10) \<and>
   (\<exists>st u. funcs_by_sample nansum normalised_table function_table True 1 1 2 = Inr (Some st, u) \<and>
        as_dict st = [(FuncSeq ''f1'' ''RARE'', [(''s1'', Fin 5), (''s2'', Fin 10)])] \<and>
        FuncId ''f1'' \<in> set (index u) \<and>
        cell u (FuncId ''f1'') ''s1'' = Fin 5 \<and>
        cell u (FuncId ''f1'') ''s2'' = Fin 10)"
proof -
  have i: "index normalised_table = [''seqA'', ''seqB'']"
      "index function_table = [''seqA'', ''seqB'']"
      "columns normalised_table = [''s1'', ''s2'']" "columns function_table = [''f1'']"
    by (simp_all add: normalised_table_def function_table_def from_rows_def)
  have c: "cell normalised_table ''seqA'' ''s1'' = Fin 5"
      "cell normalised_table ''seqA'' ''s2'' = Fin 0"
      "cell normalised_table ''seqB'' ''s1'' = Fin 0"
      "cell normalised_table ''seqB'' ''s2'' = Fin 5"
      "cell function_table ''seqA'' ''f1'' = Fin 1"
      "cell function_table ''seqB'' ''f1'' = Fin 2"
    by (simp_all add: normalised_table_def function_table_def from_rows_def)
  obtain u where
    u: "funcs_by_sample nansum normalised_table function_table False 1 1 1 = Inr (None, u)"
    using funcs_by_sample_unstrat_total [of normalised_table nansum function_table 1 1 1]
    by (auto simp: i)
  from unstratified_value [where row_total = nansum and t = normalised_table
         and F = function_table and strat_out = False and proc = 1 and min_reads = 1
         and min_samples = 1 and strat = None and unstrat = u] u
  have "if FuncId ''f1'' \<in> set (index u)
        then cell u (FuncId ''f1'') ''s1'' = Fin 5 \<and> cell u (FuncId ''f1'') ''s2'' = Fin 10
        else False"
    by (simp add: i c split: if_splits)
  then have first: "\<exists>u. funcs_by_sample nansum normalised_table function_table False 1 1 1
                          = Inr (None, u) \<and>
        FuncId ''f1'' \<in> set (index u) \<and>
        cell u (FuncId ''f1'') ''s1'' = Fin 5 \<and>
        cell u (FuncId ''f1'') ''s2'' = Fin 10"
    using u by (auto split: if_splits)
  have "map_sum id (\<lambda>(s, u). map_option as_dict s)
          (funcs_by_sample nansum normalised_table function_table True 1 1 2) =
        Inr (Some [(FuncSeq ''f1'' ''RARE'', [(''s1'', Fin 5), (''s2'', Fin 10)])])"
    by code_simp
  then obtain st w where
    r: "funcs_by_sample nansum normalised_table function_table True 1 1 2 = Inr (Some st, w)"
    and d: "as_dict st = [(FuncSeq ''f1'' ''RARE'', [(''s1'', Fin 5), (''s2'', Fin 10)])]"
    by (cases "funcs_by_sample nansum normalised_table function_table True 1 1 2") auto
  from unstratified_value [where row_total = nansum and t = normalised_table
         and F = function_table and strat_out = True and proc = 1 and min_reads = 1
         and min_samples = 2 and strat = "Some st" and unstrat = w] r
  have "if FuncId ''f1'' \<in> set (index w)
        then cell w (FuncId ''f1'') ''s1'' = Fin 5 \<and> cell w (FuncId ''f1'') ''s2'' = Fin 10
        else False"
    by (simp add: i c split: if_splits)
  then have second: "\<exists>st u. funcs_by_sample nansum normalised_table function_table True 1 1 2
                               = Inr (Some st, u) \<and>
        as_dict st = [(FuncSeq ''f1'' ''RARE'', [(''s1'', Fin 5), (''s2'', Fin 10)])] \<and>
        FuncId ''f1'' \<in> set (index u) \<and>
        cell u (FuncId ''f1'') ''s1'' = Fin 5 \<and>
        cell u (FuncId ''f1'') ''s2'' = Fin 10"
    using r d by (auto split: if_splits)
  from first second i show ?thesis by simp
qed

end
